theory Spec2Isabelle
  imports Complex_Main
begin

section \<open>Configuration and values\<close>

text \<open>
  The scripts \<^verbatim>\<open>train_intent_classifier.py\<close> and \<^verbatim>\<open>evaluate_combined.py\<close> each
  carry a \<^verbatim>\<open>Config\<close> class. Only the attributes that the modelled functions read are kept.
  Python integers are \<open>int\<close>. An accuracy is the ratio of two counts and is modelled by
  that ratio, a \<open>real\<close>; the Python value is the \<^verbatim>\<open>float\<close> nearest to it, and the test of
  \<^verbatim>\<open>EarlyStopping\<close>, which adds \<^verbatim>\<open>min_delta\<close> to an accuracy, is modelled on those floats
  (section \<open>Binary floating point\<close>).
\<close>

record Config =
  NUM_LABELS :: nat
  BATCH_SIZE :: nat
  MAX_EPOCHS :: int
  LABEL_SMOOTHING :: real
  EARLY_STOPPING_PATIENCE :: int
  N_FOLDS :: int
  CONFIDENCE_THRESHOLD :: real

definition Config_default :: Config where
  "Config_default =
     \<lparr>NUM_LABELS = 6, BATCH_SIZE = 16, MAX_EPOCHS = 15, LABEL_SMOOTHING = 1 / 10,
      EARLY_STOPPING_PATIENCE = 3, N_FOLDS = 5, CONFIDENCE_THRESHOLD = 7 / 10\<rparr>"

text \<open>The dictionary \<^verbatim>\<open>LABEL2ID\<close>, in insertion order, and its inverse \<^verbatim>\<open>ID2LABEL\<close>.\<close>

definition LABEL2ID :: "(string \<times> nat) list" where
  "LABEL2ID =
     [(''save'', 0), (''search'', 1), (''reminder'', 2), (''cancel_all'', 3),
      (''cancel_specific'', 4), (''unclear'', 5)]"

definition ID2LABEL :: "(nat \<times> string) list" where
  "ID2LABEL = map (\<lambda>(k, v). (v, k)) LABEL2ID"

text \<open>\<^verbatim>\<open>config.LABEL2ID["unclear"]\<close>: the key is a literal of the table, the lookup cannot fail.\<close>

definition LABEL2ID_unclear :: nat where
  "LABEL2ID_unclear = (case map_of LABEL2ID ''unclear'' of Some i \<Rightarrow> i | None \<Rightarrow> 0)"

text \<open>
  The exceptions the modelled code can raise. \<open>InsufficientDataError\<close> and
  \<open>DivergedTrainingError\<close> are the two error kinds that the specification names for the
  trainer; no function of the source constructs them.
\<close>

datatype error =
    ZeroDivisionError
  | TypeError
  | IndexError
  | KeyError
  | ValueError string
  | InsufficientDataError nat
  | DivergedTrainingError

section \<open>Binary floating point\<close>

text \<open>
  A Python \<^verbatim>\<open>float\<close> is an IEEE 754 binary64 number: 53 significant bits, results rounded
  to the nearest representable number, ties to the even significand. \<open>rne y\<close> is the integer
  nearest to \<open>y\<close>, ties to even; \<open>ulp64 x\<close> is the distance between neighbouring floats in
  the binade of \<open>x > 0\<close>; \<open>fl64 x\<close> is the float nearest to \<open>x\<close>. The exponent range is not
  bounded: no overflow, no subnormal numbers (the numbers concerned are accuracies in
  \<open>[0, 1]\<close>, the constant 0.001 and their sums).
\<close>

definition rne :: "real \<Rightarrow> int" where
  "rne y =
     (let f = \<lfloor>y\<rfloor>; r = y - of_int f
      in if r < 1 / 2 then f else if 1 / 2 < r then f + 1 else if even f then f else f + 1)"

definition ulp64 :: "real \<Rightarrow> real" where
  "ulp64 x = 2 powi (\<lfloor>log 2 x\<rfloor> - 52)"

definition fl64 :: "real \<Rightarrow> real" where
  "fl64 x = (if x = 0 then 0 else sgn x * (ulp64 \<bar>x\<bar> * of_int (rne (\<bar>x\<bar> / ulp64 \<bar>x\<bar>))))"

text \<open>
  The Python expression \<^verbatim>\<open>score < best + delta\<close> on floats, for operands that the model
  holds as reals: each operand is the float nearest to the real, the sum is rounded, the
  comparison of two floats is exact. \<open>float_ge_sum\<close> is \<^verbatim>\<open>score >= best + delta\<close>.
\<close>

definition float_lt_sum :: "real \<Rightarrow> real \<Rightarrow> real \<Rightarrow> bool" where
  "float_lt_sum score best delta \<longleftrightarrow> fl64 score < fl64 (fl64 best + fl64 delta)"

definition float_ge_sum :: "real \<Rightarrow> real \<Rightarrow> real \<Rightarrow> bool" where
  "float_ge_sum score best delta \<longleftrightarrow> fl64 score \<ge> fl64 (fl64 best + fl64 delta)"

text \<open>\<open>fl64\<close> of a number whose binade is known, for the evaluation of examples.\<close>

definition fl64_at :: "int \<Rightarrow> real \<Rightarrow> real" where
  "fl64_at k x = of_int (rne (x * 2 powi (52 - k))) * 2 powi (k - 52)"

section \<open>Floats that may be non-finite\<close>

text \<open>
  A loss or a logit is a float that may be non-finite. Only the distinction between finite
  and non-finite values is modelled: finite arithmetic is exact, overflow is not modelled.
\<close>

datatype pyfloat = Finite real | PosInf | NegInf | NaN

fun isfinite :: "pyfloat \<Rightarrow> bool" where
  "isfinite (Finite a) = True"
| "isfinite PosInf = False"
| "isfinite NegInf = False"
| "isfinite NaN = False"

fun pf_add :: "pyfloat \<Rightarrow> pyfloat \<Rightarrow> pyfloat" where
  "pf_add (Finite a) (Finite b) = Finite (a + b)"
| "pf_add NaN b = NaN"
| "pf_add a NaN = NaN"
| "pf_add PosInf NegInf = NaN"
| "pf_add NegInf PosInf = NaN"
| "pf_add PosInf b = PosInf"
| "pf_add a PosInf = PosInf"
| "pf_add NegInf b = NegInf"
| "pf_add a NegInf = NegInf"

text \<open>Division of a float by a positive count (\<^verbatim>\<open>total_loss / len(dataloader)\<close>).\<close>

fun pf_div_len :: "pyfloat \<Rightarrow> nat \<Rightarrow> pyfloat" where
  "pf_div_len (Finite a) n = Finite (a / real n)"
| "pf_div_len PosInf n = PosInf"
| "pf_div_len NegInf n = NegInf"
| "pf_div_len NaN n = NaN"

section \<open>External collaborators\<close>

text \<open>
  The tokenizer, the network with its optimizer and scheduler, the loss criterion, the
  stratified splitter of scikit-learn and the random permutation of a shuffling
  \<^verbatim>\<open>DataLoader\<close> are black boxes; they are the fields of one record that every modelled
  function receives.
  \<^item> \<open>'s\<close> is the mutable training state of one fold (parameters, optimizer, scheduler);
  \<^item> \<open>'m\<close> is a \<^verbatim>\<open>state_dict\<close>, a detached copy of the parameters;
  \<^item> \<open>'x\<close> is an encoded input (token ids and attention mask).
  \<open>skf_split\<close> stands for \<^verbatim>\<open>StratifiedKFold(n_splits, shuffle=True, random_state=SEED).split\<close>:
  it yields the \<open>(train_idx, val_idx)\<close> pairs or raises \<^verbatim>\<open>ValueError\<close> with a message.
  \<open>train_forward\<close> is \<^verbatim>\<open>model(input_ids, attention_mask).logits\<close> in training mode: one row
  of logits per example of the batch. \<open>optimizer_step\<close> is
  \<^verbatim>\<open>loss.backward(); clip_grad_norm_(...); optimizer.step(); scheduler.step()\<close>: the state
  after the update that the loss of the batch determines. \<open>criterion\<close> is the loss
  function that \<^verbatim>\<open>train_epoch\<close> and \<^verbatim>\<open>evaluate\<close> receive as a parameter. The scripts set
  \<^verbatim>\<open>USE_AMP = False\<close>; the mixed-precision branch of \<^verbatim>\<open>train_epoch\<close> is left out.
\<close>

record ('s, 'm, 'x) extern =
  skf_split :: "int \<Rightarrow> string list \<Rightarrow> nat list \<Rightarrow> string + (nat list \<times> nat list) list"
  tokenizer :: "string \<Rightarrow> 'x"
  permute :: "('x \<times> nat) list \<Rightarrow> ('x \<times> nat) list"
  new_model :: "nat \<Rightarrow> 's"
  train_forward :: "'s \<Rightarrow> ('x \<times> nat) list \<Rightarrow> real list list"
  optimizer_step :: "'s \<Rightarrow> ('x \<times> nat) list \<Rightarrow> pyfloat \<Rightarrow> 's"
  state_dict :: "'s \<Rightarrow> 'm"
  forward :: "'m \<Rightarrow> 'x \<Rightarrow> real list"
  criterion :: "real list list \<Rightarrow> nat list \<Rightarrow> pyfloat"

section \<open>Library functions used by the scripts\<close>

text \<open>
  \<^verbatim>\<open>sklearn.metrics.accuracy_score(y_true, y_pred)\<close>: the fraction of positions at which the
  two sequences agree. Every call site passes sequences of equal length.
\<close>

definition n_correct :: "nat list \<Rightarrow> nat list \<Rightarrow> nat" where
  "n_correct y_true y_pred = length (filter (\<lambda>(t, p). t = p) (zip y_true y_pred))"

definition accuracy_score :: "nat list \<Rightarrow> nat list \<Rightarrow> real" where
  "accuracy_score y_true y_pred = real (n_correct y_true y_pred) / real (length y_true)"

text \<open>\<^verbatim>\<open>torch.softmax(logits, dim=-1)\<close> for one example, over the reals.\<close>

definition softmax :: "real list \<Rightarrow> real list" where
  "softmax logits = map (\<lambda>z. exp z / sum_list (map exp logits)) logits"

text \<open>
  \<^verbatim>\<open>torch.max(probs, dim=-1)\<close> for one example: the greatest value and the first index
  that holds it. The scripts only apply it to the \<open>NUM_LABELS\<close> outputs of the network.
\<close>

fun max_from :: "real \<Rightarrow> nat \<Rightarrow> nat \<Rightarrow> real list \<Rightarrow> real \<times> nat" where
  "max_from v i k [] = (v, i)"
| "max_from v i k (x # xs) = (if v < x then max_from x k (Suc k) xs else max_from v i (Suc k) xs)"

fun torch_max :: "real list \<Rightarrow> real \<times> nat" where
  "torch_max [] = (0, 0)"
| "torch_max (x # xs) = max_from x 0 1 xs"

text \<open>
  Iterating a \<^verbatim>\<open>DataLoader\<close>: the examples, permuted when \<^verbatim>\<open>shuffle=True\<close>, cut into
  batches of \<^verbatim>\<open>batch_size\<close>. A loader is modelled by the list of batches it yields
  (the permutation is the same at every epoch in this model). The batch size is positive:
  \<^verbatim>\<open>Config.BATCH_SIZE\<close> is 16, and a loader with batch size 0 cannot be constructed.
\<close>

fun chunks :: "nat \<Rightarrow> 'a list \<Rightarrow> 'a list list" where
  "chunks n [] = []"
| "chunks 0 (x # xs) = []"
| "chunks (Suc n) (x # xs) = (x # take n xs) # chunks (Suc n) (drop n xs)"

text \<open>
  \<^verbatim>\<open>torch.argmax(logits, dim=-1)\<close> for one example: the first index that holds the greatest
  value.
\<close>

definition argmax :: "real list \<Rightarrow> nat" where
  "argmax logits = snd (torch_max logits)"

definition DataLoader ::
  "('s, 'm, 'x) extern \<Rightarrow> ('x \<times> nat) list \<Rightarrow> nat \<Rightarrow> bool \<Rightarrow> ('x \<times> nat) list list" where
  "DataLoader ext dataset batch_size shuffle =
     chunks batch_size (if shuffle then permute ext dataset else dataset)"

section \<open>The confidence threshold\<close>

text \<open>
  The loop
  \<^verbatim>\<open>for pred, conf in zip(all_preds, all_confidences):
      if conf < config.CONFIDENCE_THRESHOLD: adjusted_preds.append(config.LABEL2ID["unclear"])
      else: adjusted_preds.append(pred)\<close>
  of \<^verbatim>\<open>evaluate\<close> (train_intent_classifier.py), which \<^verbatim>\<open>evaluate_dataset\<close> and
  \<^verbatim>\<open>evaluate_combined\<close> (evaluate_combined.py) repeat word for word. The accumulator is
  the list \<^verbatim>\<open>adjusted_preds\<close>.
\<close>

fun adjusted_loop :: "real \<Rightarrow> (nat \<times> real) list \<Rightarrow> nat list \<Rightarrow> nat list" where
  "adjusted_loop threshold [] adjusted = adjusted"
| "adjusted_loop threshold ((pred, conf) # rest) adjusted =
     (if conf < threshold
      then adjusted_loop threshold rest (adjusted @ [LABEL2ID_unclear])
      else adjusted_loop threshold rest (adjusted @ [pred]))"

definition adjusted_preds :: "real \<Rightarrow> nat list \<Rightarrow> real list \<Rightarrow> nat list" where
  "adjusted_preds threshold all_preds all_confidences =
     adjusted_loop threshold (zip all_preds all_confidences) []"

section \<open>train\_intent\_classifier.py\<close>

subsection \<open>IntentClassifier.predict\_with\_confidence\<close>


subsection \<open>EarlyStopping\<close>

record 'm EarlyStopping =
  patience :: int
  min_delta :: real
  counter :: int
  best_score :: "real option"
  early_stop :: bool
  best_model_state :: "'m option"

definition EarlyStopping_init :: "int \<Rightarrow> real \<Rightarrow> 'm EarlyStopping" where
  "EarlyStopping_init p d =
     \<lparr>patience = p, min_delta = d, counter = 0, best_score = None, early_stop = False,
      best_model_state = None\<rparr>"

text \<open>
  \<^verbatim>\<open>EarlyStopping.__call__(val_accuracy, model)\<close>; \<open>m\<close> is the copy
  \<^verbatim>\<open>{k: v.cpu().clone() ...}\<close> of the model's parameters at the call. The result is the
  returned flag and the object after the call. The test
  \<^verbatim>\<open>score < self.best_score + self.min_delta\<close> is made on floats.
\<close>

definition EarlyStopping_call ::
  "'m EarlyStopping \<Rightarrow> real \<Rightarrow> 'm \<Rightarrow> bool \<times> 'm EarlyStopping" where
  "EarlyStopping_call self val_accuracy m =
     (let score = val_accuracy;
          self' =
            (case best_score self of
               None \<Rightarrow> self\<lparr>best_score := Some score, best_model_state := Some m\<rparr>
             | Some b \<Rightarrow>
                 if float_lt_sum score b (min_delta self)
                 then (let c = counter self + 1
                       in if c \<ge> patience self
                          then self\<lparr>counter := c, early_stop := True\<rparr>
                          else self\<lparr>counter := c\<rparr>)
                 else self\<lparr>best_score := Some score, best_model_state := Some m, counter := 0\<rparr>)
      in (early_stop self', self'))"

subsection \<open>train\_epoch and evaluate\<close>

text \<open>
  \<^verbatim>\<open>train_epoch\<close>: one pass over the batches of the loader. For each batch the logits are
  computed, the criterion gives the loss, the loss is back-propagated and the optimizer
  and scheduler step; the loss and the arg-max predictions are accumulated.
  \<^verbatim>\<open>total_loss\<close> starts at the integer 0, so \<^verbatim>\<open>total_loss / len(dataloader)\<close> raises
  \<^verbatim>\<open>ZeroDivisionError\<close> for a loader without batches. The result is \<open>(avg_loss, accuracy)\<close>
  and the training state after the pass.
\<close>

fun train_epoch_loop ::
  "('s, 'm, 'x) extern \<Rightarrow> ('x \<times> nat) list list \<Rightarrow> 's \<Rightarrow> pyfloat \<Rightarrow> nat list \<Rightarrow> nat list
   \<Rightarrow> 's \<times> pyfloat \<times> nat list \<times> nat list" where
  "train_epoch_loop ext [] s total_loss all_preds all_labels =
     (s, total_loss, all_preds, all_labels)"
| "train_epoch_loop ext (batch # rest) s total_loss all_preds all_labels =
     (let logits = train_forward ext s batch;
          loss = criterion ext logits (map snd batch);
          s' = optimizer_step ext s batch loss;
          preds = map argmax logits
      in train_epoch_loop ext rest s' (pf_add total_loss loss) (all_preds @ preds)
           (all_labels @ map snd batch))"

definition train_epoch ::
  "('s, 'm, 'x) extern \<Rightarrow> 's \<Rightarrow> ('x \<times> nat) list list \<Rightarrow> error + (pyfloat \<times> real \<times> 's)" where
  "train_epoch ext s dataloader =
     (case train_epoch_loop ext dataloader s (Finite 0) [] [] of
        (s', total_loss, all_preds, all_labels) \<Rightarrow>
          if length dataloader = 0 then Inl ZeroDivisionError
          else Inr (pf_div_len total_loss (length dataloader),
                    accuracy_score all_labels all_preds, s'))"

text \<open>
  \<^verbatim>\<open>evaluate\<close>: no parameter is updated, so the model is the \<^verbatim>\<open>state_dict\<close> \<open>m\<close>. In
  inference mode the logits of an example do not depend on the other examples of its
  batch. The result is
  \<open>(avg_loss, accuracy, adjusted_accuracy, all_preds, all_labels, all_confidences)\<close>.
\<close>

fun evaluate_loop ::
  "('s, 'm, 'x) extern \<Rightarrow> 'm \<Rightarrow> ('x \<times> nat) list list \<Rightarrow> pyfloat \<Rightarrow> nat list \<Rightarrow> nat list
   \<Rightarrow> real list \<Rightarrow> pyfloat \<times> nat list \<times> nat list \<times> real list" where
  "evaluate_loop ext m [] total_loss all_preds all_labels all_confidences =
     (total_loss, all_preds, all_labels, all_confidences)"
| "evaluate_loop ext m (batch # rest) total_loss all_preds all_labels all_confidences =
     (let logits = map (\<lambda>(x, y). forward ext m x) batch;
          loss = criterion ext logits (map snd batch);
          probs = map softmax logits;
          cps = map torch_max probs
      in evaluate_loop ext m rest (pf_add total_loss loss) (all_preds @ map snd cps)
           (all_labels @ map snd batch) (all_confidences @ map fst cps))"

definition evaluate ::
  "('s, 'm, 'x) extern \<Rightarrow> 'm \<Rightarrow> ('x \<times> nat) list list \<Rightarrow> Config
   \<Rightarrow> error + (pyfloat \<times> real \<times> real \<times> nat list \<times> nat list \<times> real list)" where
  "evaluate ext m dataloader cfg =
     (case evaluate_loop ext m dataloader (Finite 0) [] [] [] of
        (total_loss, all_preds, all_labels, all_confidences) \<Rightarrow>
          if length dataloader = 0 then Inl ZeroDivisionError
          else
            (let avg_loss = pf_div_len total_loss (length dataloader);
                 accuracy = accuracy_score all_labels all_preds;
                 adjusted = adjusted_preds (CONFIDENCE_THRESHOLD cfg) all_preds all_confidences;
                 adjusted_accuracy = accuracy_score all_labels adjusted
             in Inr (avg_loss, accuracy, adjusted_accuracy, all_preds, all_labels,
                     all_confidences)))"

subsection \<open>train\_fold\<close>

text \<open>The dictionary \<^verbatim>\<open>history\<close> of \<^verbatim>\<open>train_fold\<close>, one list per key.\<close>

record history =
  train_loss :: "pyfloat list"
  train_acc :: "real list"
  val_loss :: "pyfloat list"
  val_acc :: "real list"
  val_acc_adjusted :: "real list"

definition history_init :: history where
  "history_init =
     \<lparr>train_loss = [], train_acc = [], val_loss = [], val_acc = [], val_acc_adjusted = []\<rparr>"

text \<open>\<^verbatim>\<open>Module.load_state_dict\<close> raises \<^verbatim>\<open>TypeError\<close> when it is given \<^verbatim>\<open>None\<close>.\<close>

definition load_state_dict :: "'m option \<Rightarrow> error + 'm" where
  "load_state_dict sd = (case sd of None \<Rightarrow> Inl TypeError | Some m \<Rightarrow> Inr m)"

text \<open>
  The loop \<^verbatim>\<open>for epoch in range(config.MAX_EPOCHS)\<close> of \<^verbatim>\<open>train_fold\<close>; the first numeric
  argument is the number of epochs still to run. The loop state is the training state, the
  history, the local \<^verbatim>\<open>best_val_acc\<close> (used for logging only) and the \<^verbatim>\<open>EarlyStopping\<close>
  object.
\<close>

fun train_fold_loop ::
  "('s, 'm, 'x) extern \<Rightarrow> Config \<Rightarrow> ('x \<times> nat) list list \<Rightarrow> ('x \<times> nat) list list \<Rightarrow> nat
   \<Rightarrow> 's \<Rightarrow> history \<Rightarrow> real \<Rightarrow> 'm EarlyStopping
   \<Rightarrow> error + ('s \<times> history \<times> real \<times> 'm EarlyStopping)" where
  "train_fold_loop ext cfg train_loader val_loader 0 s h best_val_acc es =
     Inr (s, h, best_val_acc, es)"
| "train_fold_loop ext cfg train_loader val_loader (Suc n) s h best_val_acc es =
     (case train_epoch ext s train_loader of
        Inl e \<Rightarrow> Inl e
      | Inr (tr_loss, tr_acc, s1) \<Rightarrow>
          (case evaluate ext (state_dict ext s1) val_loader cfg of
             Inl e \<Rightarrow> Inl e
           | Inr (v_loss, v_acc, v_acc_adj, ps, ls, cs) \<Rightarrow>
               (let h1 = h\<lparr>train_loss := train_loss h @ [tr_loss],
                            train_acc := train_acc h @ [tr_acc],
                            val_loss := val_loss h @ [v_loss],
                            val_acc := val_acc h @ [v_acc],
                            val_acc_adjusted := val_acc_adjusted h @ [v_acc_adj]\<rparr>;
                    best1 = (if v_acc > best_val_acc then v_acc else best_val_acc);
                    (stop, es1) = EarlyStopping_call es v_acc (state_dict ext s1)
                in if stop then Inr (s1, h1, best1, es1)
                   else train_fold_loop ext cfg train_loader val_loader n s1 h1 best1 es1)))"

text \<open>
  \<^verbatim>\<open>train_fold\<close>: \<^verbatim>\<open>EarlyStopping(patience=config.EARLY_STOPPING_PATIENCE)\<close> leaves
  \<^verbatim>\<open>min_delta\<close> at its default 0.001. After the loop the best snapshot is loaded into
  the model, which is returned with the history and \<^verbatim>\<open>early_stopping.best_score\<close>.
\<close>

definition train_fold ::
  "('s, 'm, 'x) extern \<Rightarrow> nat \<Rightarrow> ('x \<times> nat) list list \<Rightarrow> ('x \<times> nat) list list \<Rightarrow> Config
   \<Rightarrow> error + ('m \<times> history \<times> real option)" where
  "train_fold ext fold_ix train_loader val_loader cfg =
     (case train_fold_loop ext cfg train_loader val_loader (nat (MAX_EPOCHS cfg))
             (new_model ext fold_ix) history_init 0
             (EarlyStopping_init (EARLY_STOPPING_PATIENCE cfg) (1 / 1000)) of
        Inl e \<Rightarrow> Inl e
      | Inr (s, h, best_val_acc, es) \<Rightarrow>
          (case load_state_dict (best_model_state es) of
             Inl e \<Rightarrow> Inl e
           | Inr model \<Rightarrow> Inr (model, h, best_score es)))"

subsection \<open>run\_cross\_validation and main\<close>

record fold_result =
  fold_num :: nat
  best_val_accuracy :: real
  epochs_trained :: nat

text \<open>\<^verbatim>\<open>xs[idx]\<close> for an index array \<open>idx\<close>: \<^verbatim>\<open>IndexError\<close> when an index is out of range.\<close>

definition take_idx :: "'a list \<Rightarrow> nat list \<Rightarrow> error + 'a list" where
  "take_idx xs idx =
     (if list_all (\<lambda>i. i < length xs) idx then Inr (map (\<lambda>i. xs ! i) idx) else Inl IndexError)"

text \<open>
  The datasets and loaders of one fold: \<^verbatim>\<open>IntentDataset\<close> pairs each tokenized text with
  its label; the training loader shuffles, the validation loader does not.
\<close>

definition IntentDataset ::
  "('s, 'm, 'x) extern \<Rightarrow> string list \<Rightarrow> nat list \<Rightarrow> ('x \<times> nat) list" where
  "IntentDataset ext txts lbls = zip (map (tokenizer ext) txts) lbls"

definition fold_loaders ::
  "('s, 'm, 'x) extern \<Rightarrow> Config \<Rightarrow> string list \<Rightarrow> nat list \<Rightarrow> nat list \<times> nat list
   \<Rightarrow> error + (('x \<times> nat) list list \<times> ('x \<times> nat) list list)" where
  "fold_loaders ext cfg txts lbls split =
     (case split of
        (train_idx, val_idx) \<Rightarrow>
          (case take_idx txts train_idx of Inl e \<Rightarrow> Inl e | Inr train_texts \<Rightarrow>
          (case take_idx lbls train_idx of Inl e \<Rightarrow> Inl e | Inr train_labels \<Rightarrow>
          (case take_idx txts val_idx of Inl e \<Rightarrow> Inl e | Inr val_texts \<Rightarrow>
          (case take_idx lbls val_idx of Inl e \<Rightarrow> Inl e | Inr val_labels \<Rightarrow>
             Inr (DataLoader ext (IntentDataset ext train_texts train_labels)
                    (BATCH_SIZE cfg) True,
                  DataLoader ext (IntentDataset ext val_texts val_labels)
                    (BATCH_SIZE cfg) False))))))"

text \<open>
  The loop \<^verbatim>\<open>for fold, (train_idx, val_idx) in enumerate(skf.split(texts, labels))\<close>. Its
  state is \<open>(fold_results, all_histories, best_fold, best_fold_acc, best_model_state)\<close>;
  \<open>k\<close> is the value of \<^verbatim>\<open>fold\<close>. The comparison \<^verbatim>\<open>best_acc > best_fold_acc\<close> raises
  \<^verbatim>\<open>TypeError\<close> when \<^verbatim>\<open>best_acc\<close> is \<^verbatim>\<open>None\<close>.
\<close>

type_synonym 'm cv_state =
  "fold_result list \<times> history list \<times> int \<times> real \<times> 'm option"

fun cv_loop ::
  "('s, 'm, 'x) extern \<Rightarrow> Config \<Rightarrow> string list \<Rightarrow> nat list \<Rightarrow> (nat list \<times> nat list) list
   \<Rightarrow> nat \<Rightarrow> 'm cv_state \<Rightarrow> error + 'm cv_state" where
  "cv_loop ext cfg txts lbls [] k st = Inr st"
| "cv_loop ext cfg txts lbls (split # rest) k st =
     (case st of
        (fold_results, all_histories, best_fold, best_fold_acc, bms) \<Rightarrow>
          (case fold_loaders ext cfg txts lbls split of
             Inl e \<Rightarrow> Inl e
           | Inr (train_loader, val_loader) \<Rightarrow>
               (case train_fold ext k train_loader val_loader cfg of
                  Inl e \<Rightarrow> Inl e
                | Inr (model, h, best_acc_opt) \<Rightarrow>
                    (case best_acc_opt of
                       None \<Rightarrow> Inl TypeError
                     | Some best_acc \<Rightarrow>
                         (let fold_results1 =
                                fold_results @
                                  [\<lparr>fold_num = k + 1, best_val_accuracy = best_acc,
                                    epochs_trained = length (train_loss h)\<rparr>];
                              all_histories1 = all_histories @ [h]
                          in if best_acc > best_fold_acc
                             then cv_loop ext cfg txts lbls rest (Suc k)
                                    (fold_results1, all_histories1, int k, best_acc, Some model)
                             else cv_loop ext cfg txts lbls rest (Suc k)
                                    (fold_results1, all_histories1, best_fold, best_fold_acc,
                                     bms))))))"

text \<open>
  \<^verbatim>\<open>run_cross_validation\<close>; \<open>cv_df\<close> is the list of rows \<open>(text, label_id)\<close>. The splitter
  computes all folds before it yields the first one, so its \<^verbatim>\<open>ValueError\<close> precedes any
  training. The result is \<open>(fold_results, all_histories, best_fold, best_model_state)\<close>;
  the checkpoint file written after each fold and the log lines are left out.
\<close>

definition run_cross_validation ::
  "('s, 'm, 'x) extern \<Rightarrow> (string \<times> nat) list \<Rightarrow> Config
   \<Rightarrow> error + (fold_result list \<times> history list \<times> int \<times> 'm option)" where
  "run_cross_validation ext cv_df cfg =
     (let txts = map fst cv_df; lbls = map snd cv_df
      in case skf_split ext (N_FOLDS cfg) txts lbls of
           Inl msg \<Rightarrow> Inl (ValueError msg)
         | Inr splits \<Rightarrow>
             (case cv_loop ext cfg txts lbls splits 0 ([], [], - 1, 0, None) of
                Inl e \<Rightarrow> Inl e
              | Inr (fold_results, all_histories, best_fold, best_fold_acc, bms) \<Rightarrow>
                  Inr (fold_results, all_histories, best_fold, bms)))"

text \<open>
  The part of \<^verbatim>\<open>main\<close> from the call of \<^verbatim>\<open>run_cross_validation\<close> to
  \<^verbatim>\<open>best_model.load_state_dict(best_model_state)\<close>: the loaded best model, with the
  cross-validation results.
\<close>

definition main_best_model ::
  "('s, 'm, 'x) extern \<Rightarrow> (string \<times> nat) list \<Rightarrow> Config
   \<Rightarrow> error + ('m \<times> fold_result list \<times> history list \<times> int)" where
  "main_best_model ext cv_df cfg =
     (case run_cross_validation ext cv_df cfg of
        Inl e \<Rightarrow> Inl e
      | Inr (fold_results, all_histories, best_fold, bms) \<Rightarrow>
          (case load_state_dict bms of
             Inl e \<Rightarrow> Inl e
           | Inr best_model \<Rightarrow> Inr (best_model, fold_results, all_histories, best_fold)))"

text \<open>
  What \<^verbatim>\<open>run_cross_validation\<close> obtains for one fold: the loaders are built from the index
  arrays of the split and \<^verbatim>\<open>train_fold\<close> is called with the fold index.
\<close>

definition fold_outcome ::
  "('s, 'm, 'x) extern \<Rightarrow> Config \<Rightarrow> string list \<Rightarrow> nat list \<Rightarrow> nat list \<times> nat list \<Rightarrow> nat
   \<Rightarrow> error + ('m \<times> history \<times> real option)" where
  "fold_outcome ext cfg txts lbls split k =
     (case fold_loaders ext cfg txts lbls split of
        Inl e \<Rightarrow> Inl e
      | Inr (train_loader, val_loader) \<Rightarrow> train_fold ext k train_loader val_loader cfg)"

section \<open>evaluate\_combined.py\<close>

text \<open>
  \<^verbatim>\<open>sklearn.metrics.classification_report(y_true, y_pred, target_names=...)\<close> without a
  \<^verbatim>\<open>labels\<close> argument raises \<^verbatim>\<open>ValueError\<close> when the number of distinct classes that occur
  in \<open>y_true\<close> and \<open>y_pred\<close> differs from the number of target names.
\<close>

definition classification_report_ok :: "nat list \<Rightarrow> nat list \<Rightarrow> nat \<Rightarrow> bool" where
  "classification_report_ok y_true y_pred n_names =
     (length (remdups (y_true @ y_pred)) = n_names)"

text \<open>\<^verbatim>\<open>predict\<close>: \<open>(predictions, confidences)\<close> for a list of texts, one text at a time.\<close>

definition predict ::
  "('s, 'm, 'x) extern \<Rightarrow> 'm \<Rightarrow> string list \<Rightarrow> nat list \<times> real list" where
  "predict ext m txts =
     (let outs = map (\<lambda>text. torch_max (softmax (forward ext m (tokenizer ext text)))) txts
      in (map snd outs, map fst outs))"

text \<open>A list comprehension \<^verbatim>\<open>[d[k] for k in ks]\<close>; a missing key raises \<^verbatim>\<open>KeyError\<close>.\<close>

fun lookup_all :: "('k \<times> 'v) list \<Rightarrow> 'k list \<Rightarrow> error + 'v list" where
  "lookup_all d [] = Inr []"
| "lookup_all d (k # ks) =
     (case map_of d k of
        None \<Rightarrow> Inl KeyError
      | Some v \<Rightarrow> (case lookup_all d ks of Inl e \<Rightarrow> Inl e | Inr vs \<Rightarrow> Inr (v # vs)))"

record error_entry =
  err_text :: string
  err_true :: string
  err_predicted :: string
  err_confidence :: real

text \<open>
  The error analysis loop
  \<^verbatim>\<open>for text, true_label, pred, conf in zip(texts, labels, predictions, confidences)\<close>,
  which appends an entry when \<^verbatim>\<open>true_label != pred\<close>.
\<close>

fun collect_errors ::
  "(string \<times> nat \<times> nat \<times> real) list \<Rightarrow> error_entry list \<Rightarrow> error + error_entry list" where
  "collect_errors [] errs = Inr errs"
| "collect_errors ((text, true_label, pred, conf) # rest) errs =
     (if true_label \<noteq> pred
      then (case map_of ID2LABEL true_label of
              None \<Rightarrow> Inl KeyError
            | Some t \<Rightarrow>
                (case map_of ID2LABEL pred of
                   None \<Rightarrow> Inl KeyError
                 | Some p \<Rightarrow>
                     collect_errors rest
                       (errs @ [\<lparr>err_text = text, err_true = t, err_predicted = p,
                                 err_confidence = conf\<rparr>])))
      else collect_errors rest errs)"

record dataset_result =
  res_texts :: "string list"
  res_labels :: "nat list"
  res_predictions :: "nat list"
  res_confidences :: "real list"
  raw_accuracy :: real
  adjusted_accuracy :: real
  res_errors :: "error_entry list"

text \<open>
  \<^verbatim>\<open>evaluate_dataset\<close>; \<open>df\<close> is the list of rows \<open>(text, label)\<close>. The line that prints
  \<^verbatim>\<open>len(errors)/len(texts)\<close> raises \<^verbatim>\<open>ZeroDivisionError\<close> for a data set without rows.
\<close>

definition evaluate_dataset ::
  "('s, 'm, 'x) extern \<Rightarrow> 'm \<Rightarrow> (string \<times> string) list \<Rightarrow> Config \<Rightarrow> error + dataset_result" where
  "evaluate_dataset ext m df cfg =
     (let txts = map fst df
      in case lookup_all LABEL2ID (map snd df) of
           Inl e \<Rightarrow> Inl e
         | Inr lbls \<Rightarrow>
             (case predict ext m txts of
                (predictions, confidences) \<Rightarrow>
                  (let raw = accuracy_score lbls predictions;
                       adjusted = adjusted_preds (CONFIDENCE_THRESHOLD cfg) predictions confidences;
                       adj = accuracy_score lbls adjusted
                   in case collect_errors (zip txts (zip lbls (zip predictions confidences))) [] of
                        Inl e \<Rightarrow> Inl e
                      | Inr errs \<Rightarrow>
                          if length txts = 0 then Inl ZeroDivisionError
                          else Inr \<lparr>res_texts = txts, res_labels = lbls,
                                    res_predictions = predictions,
                                    res_confidences = confidences, raw_accuracy = raw,
                                    adjusted_accuracy = adj, res_errors = errs\<rparr>)))"

text \<open>The loop \<^verbatim>\<open>for name, df in datasets.items(): results[name] = evaluate_dataset(...)\<close>.\<close>

fun evaluate_each ::
  "('s, 'm, 'x) extern \<Rightarrow> 'm \<Rightarrow> (string \<times> (string \<times> string) list) list \<Rightarrow> Config
   \<Rightarrow> error + (string \<times> dataset_result) list" where
  "evaluate_each ext m [] cfg = Inr []"
| "evaluate_each ext m ((name, df) # rest) cfg =
     (case evaluate_dataset ext m df cfg of
        Inl e \<Rightarrow> Inl e
      | Inr res \<Rightarrow>
          (case evaluate_each ext m rest cfg of
             Inl e \<Rightarrow> Inl e
           | Inr results \<Rightarrow> Inr ((name, res) # results)))"

record combined_result =
  combined_raw_accuracy :: real
  combined_adjusted_accuracy :: real
  total_samples :: nat
  total_errors :: nat
  per_dataset :: "(string \<times> real \<times> real) list"

text \<open>
  \<^verbatim>\<open>evaluate_combined\<close>, from the loaded model \<open>m\<close> and the dictionary \<open>datasets\<close> of the data
  sets that were found, in insertion order. The lists \<^verbatim>\<open>all_labels\<close>, \<^verbatim>\<open>all_predictions\<close>,
  \<^verbatim>\<open>all_confidences\<close> and \<^verbatim>\<open>all_texts\<close> are extended with the lists of every result; the
  pooled accuracies are computed on them.
\<close>

definition evaluate_combined ::
  "('s, 'm, 'x) extern \<Rightarrow> 'm \<Rightarrow> (string \<times> (string \<times> string) list) list \<Rightarrow> Config
   \<Rightarrow> error + combined_result" where
  "evaluate_combined ext m datasets cfg =
     (case evaluate_each ext m datasets cfg of
        Inl e \<Rightarrow> Inl e
      | Inr results \<Rightarrow>
          (let all_labels = concat (map (\<lambda>(name, res). res_labels res) results);
               all_predictions = concat (map (\<lambda>(name, res). res_predictions res) results);
               all_confidences = concat (map (\<lambda>(name, res). res_confidences res) results);
               all_texts = concat (map (\<lambda>(name, res). res_texts res) results);
               n_total = length all_labels;
               raw = accuracy_score all_labels all_predictions;
               adjusted =
                 adjusted_preds (CONFIDENCE_THRESHOLD cfg) all_predictions all_confidences;
               adj = accuracy_score all_labels adjusted
           in if \<not> classification_report_ok all_labels all_predictions (length LABEL2ID)
              then Inl (ValueError ''Number of classes does not match size of target_names'')
              else
                (case collect_errors
                        (zip all_texts (zip all_labels (zip all_predictions all_confidences)))
                        [] of
                   Inl e \<Rightarrow> Inl e
                 | Inr all_errors \<Rightarrow>
                     if n_total = 0 then Inl ZeroDivisionError
                     else Inr \<lparr>combined_raw_accuracy = raw, combined_adjusted_accuracy = adj,
                               total_samples = n_total, total_errors = length all_errors,
                               per_dataset =
                                 map (\<lambda>(name, res). (name, raw_accuracy res, adjusted_accuracy res))
                                   results\<rparr>)))"

section \<open>The trainer on logits that may be non-finite\<close>

text \<open>
  The functions \<^verbatim>\<open>train_epoch\<close>, \<^verbatim>\<open>evaluate\<close> and \<^verbatim>\<open>train_fold\<close> once more, with the suffix
  \<open>_f\<close>, for a network whose logits are floats that may be non-finite (an overflow in the
  network, or parameters that an update has made non-finite). Here the criterion is the
  one that \<^verbatim>\<open>train_fold\<close> creates with \<^verbatim>\<open>get_loss_criterion(config)\<close>,
  \<^verbatim>\<open>nn.CrossEntropyLoss(label_smoothing=config.LABEL_SMOOTHING)\<close>. Accuracies are ratios of
  counts of equal labels and stay real.
\<close>

subsection \<open>Arithmetic and comparison\<close>

fun pf_neg :: "pyfloat \<Rightarrow> pyfloat" where
  "pf_neg (Finite a) = Finite (- a)"
| "pf_neg PosInf = NegInf"
| "pf_neg NegInf = PosInf"
| "pf_neg NaN = NaN"

text \<open>The product of a finite number and a float: zero times an infinity is NaN.\<close>

fun pf_scale :: "real \<Rightarrow> pyfloat \<Rightarrow> pyfloat" where
  "pf_scale c (Finite a) = Finite (c * a)"
| "pf_scale c PosInf = (if 0 < c then PosInf else if c < 0 then NegInf else NaN)"
| "pf_scale c NegInf = (if 0 < c then NegInf else if c < 0 then PosInf else NaN)"
| "pf_scale c NaN = NaN"

text \<open>The comparison \<^verbatim>\<open><\<close> of floats: false whenever an operand is NaN.\<close>

fun pf_less :: "pyfloat \<Rightarrow> pyfloat \<Rightarrow> bool" where
  "pf_less (Finite a) (Finite b) = (a < b)"
| "pf_less NaN b = False"
| "pf_less a NaN = False"
| "pf_less PosInf b = False"
| "pf_less a NegInf = False"
| "pf_less a PosInf = True"
| "pf_less NegInf b = True"

definition pf_sum :: "pyfloat list \<Rightarrow> pyfloat" where
  "pf_sum xs = foldl pf_add (Finite 0) xs"

subsection \<open>Soft-max, maximum and cross-entropy\<close>

text \<open>
  \<^verbatim>\<open>torch.softmax\<close> and \<^verbatim>\<open>log_softmax\<close> subtract the greatest logit of the row before they
  exponentiate. A row that holds a NaN or \<open>+\<infinity>\<close>, or nothing finite, therefore gives NaN at
  every position (\<open>\<infinity> - \<infinity>\<close> is NaN); in any other row a logit \<open>-\<infinity>\<close> has weight 0,
  probability 0 and log-probability \<open>-\<infinity>\<close>.
\<close>

fun expw :: "pyfloat \<Rightarrow> real" where
  "expw (Finite a) = exp a"
| "expw PosInf = 0"
| "expw NegInf = 0"
| "expw NaN = 0"

definition row_ok :: "pyfloat list \<Rightarrow> bool" where
  "row_ok zs \<longleftrightarrow> list_all (\<lambda>z. z \<noteq> NaN \<and> z \<noteq> PosInf) zs \<and> list_ex isfinite zs"

definition softmax_f :: "pyfloat list \<Rightarrow> pyfloat list" where
  "softmax_f logits =
     (if row_ok logits
      then map (\<lambda>z. Finite (expw z / sum_list (map expw logits))) logits
      else map (\<lambda>z. NaN) logits)"

definition log_softmax_f :: "pyfloat list \<Rightarrow> pyfloat list" where
  "log_softmax_f logits =
     (if row_ok logits
      then map (\<lambda>z. case z of Finite a \<Rightarrow> Finite (a - ln (sum_list (map expw logits)))
                      | PosInf \<Rightarrow> NaN | NegInf \<Rightarrow> NegInf | NaN \<Rightarrow> NaN) logits
      else map (\<lambda>z. NaN) logits)"

text \<open>
  \<^verbatim>\<open>torch.max(probs, dim=-1)\<close> and \<^verbatim>\<open>torch.argmax\<close> on floats: a NaN counts as the greatest
  value, the scan ends at the first NaN; otherwise the first index that holds the greatest
  value.
\<close>

fun max_from_f :: "pyfloat \<Rightarrow> nat \<Rightarrow> nat \<Rightarrow> pyfloat list \<Rightarrow> pyfloat \<times> nat" where
  "max_from_f v i k [] = (v, i)"
| "max_from_f v i k (x # xs) =
     (if v = NaN then (v, i)
      else if x = NaN then (x, k)
      else if pf_less v x then max_from_f x k (Suc k) xs
      else max_from_f v i (Suc k) xs)"

fun torch_max_f :: "pyfloat list \<Rightarrow> pyfloat \<times> nat" where
  "torch_max_f [] = (Finite 0, 0)"
| "torch_max_f (x # xs) = max_from_f x 0 1 xs"

definition argmax_f :: "pyfloat list \<Rightarrow> nat" where
  "argmax_f logits = snd (torch_max_f logits)"

text \<open>
  \<^verbatim>\<open>nn.CrossEntropyLoss(label_smoothing=eps)\<close> with the default mean reduction. For one
  example with log-probabilities \<open>lp\<close> and target \<open>y\<close> the loss is \<open>- lp[y]\<close> when \<open>eps\<close> is 0,
  and else \<open>(1 - eps) * (- lp[y]) + (eps / C) * (- sum lp)\<close> for \<open>C\<close> classes. A target
  that is not below the number of classes raises \<^verbatim>\<open>IndexError\<close>. The mean of no example is
  NaN.
\<close>

definition example_loss :: "real \<Rightarrow> pyfloat list \<Rightarrow> nat \<Rightarrow> pyfloat" where
  "example_loss eps logits y =
     (let lp = log_softmax_f logits;
          nll = pf_neg (lp ! y);
          smooth = pf_neg (pf_sum lp)
      in if 0 < eps
         then pf_add (pf_scale (1 - eps) nll) (pf_scale (eps / real (length logits)) smooth)
         else nll)"

definition labels_in_range :: "pyfloat list list \<Rightarrow> nat list \<Rightarrow> bool" where
  "labels_in_range logits targets = list_all (\<lambda>(row, y). y < length row) (zip logits targets)"

definition CrossEntropyLoss :: "real \<Rightarrow> pyfloat list list \<Rightarrow> nat list \<Rightarrow> error + pyfloat" where
  "CrossEntropyLoss eps logits targets =
     (if \<not> labels_in_range logits targets then Inl IndexError
      else if targets = [] then Inr NaN
      else Inr (pf_div_len (pf_sum (map (\<lambda>(row, y). example_loss eps row y) (zip logits targets)))
                  (length targets)))"

definition get_loss_criterion :: "Config \<Rightarrow> pyfloat list list \<Rightarrow> nat list \<Rightarrow> error + pyfloat" where
  "get_loss_criterion cfg = CrossEntropyLoss (LABEL_SMOOTHING cfg)"

subsection \<open>The network\<close>

text \<open>
  The network with its optimizer and scheduler, as in the record \<open>extern\<close>, with logits that
  are floats.
\<close>

record ('s, 'm, 'x) float_net =
  fn_new_model :: "nat \<Rightarrow> 's"
  fn_train_forward :: "'s \<Rightarrow> ('x \<times> nat) list \<Rightarrow> pyfloat list list"
  fn_optimizer_step :: "'s \<Rightarrow> ('x \<times> nat) list \<Rightarrow> pyfloat \<Rightarrow> 's"
  fn_state_dict :: "'s \<Rightarrow> 'm"
  fn_forward :: "'m \<Rightarrow> 'x \<Rightarrow> pyfloat list"

subsection \<open>train\_epoch, evaluate and train\_fold\<close>

fun train_epoch_loop_f ::
  "('s, 'm, 'x) float_net \<Rightarrow> (pyfloat list list \<Rightarrow> nat list \<Rightarrow> error + pyfloat)
   \<Rightarrow> ('x \<times> nat) list list \<Rightarrow> 's \<Rightarrow> pyfloat \<Rightarrow> nat list \<Rightarrow> nat list
   \<Rightarrow> error + ('s \<times> pyfloat \<times> nat list \<times> nat list)" where
  "train_epoch_loop_f net crit [] s total_loss all_preds all_labels =
     Inr (s, total_loss, all_preds, all_labels)"
| "train_epoch_loop_f net crit (batch # rest) s total_loss all_preds all_labels =
     (let logits = fn_train_forward net s batch
      in case crit logits (map snd batch) of
           Inl e \<Rightarrow> Inl e
         | Inr loss \<Rightarrow>
             train_epoch_loop_f net crit rest (fn_optimizer_step net s batch loss)
               (pf_add total_loss loss) (all_preds @ map argmax_f logits)
               (all_labels @ map snd batch))"

definition train_epoch_f ::
  "('s, 'm, 'x) float_net \<Rightarrow> (pyfloat list list \<Rightarrow> nat list \<Rightarrow> error + pyfloat) \<Rightarrow> 's
   \<Rightarrow> ('x \<times> nat) list list \<Rightarrow> error + (pyfloat \<times> real \<times> 's)" where
  "train_epoch_f net crit s dataloader =
     (case train_epoch_loop_f net crit dataloader s (Finite 0) [] [] of
        Inl e \<Rightarrow> Inl e
      | Inr (s', total_loss, all_preds, all_labels) \<Rightarrow>
          if length dataloader = 0 then Inl ZeroDivisionError
          else Inr (pf_div_len total_loss (length dataloader),
                    accuracy_score all_labels all_preds, s'))"

text \<open>The threshold loop of \<^verbatim>\<open>evaluate\<close> on confidences that are floats.\<close>

fun adjusted_loop_f :: "real \<Rightarrow> (nat \<times> pyfloat) list \<Rightarrow> nat list \<Rightarrow> nat list" where
  "adjusted_loop_f threshold [] adjusted = adjusted"
| "adjusted_loop_f threshold ((pred, conf) # rest) adjusted =
     (if pf_less conf (Finite threshold)
      then adjusted_loop_f threshold rest (adjusted @ [LABEL2ID_unclear])
      else adjusted_loop_f threshold rest (adjusted @ [pred]))"

fun evaluate_loop_f ::
  "('s, 'm, 'x) float_net \<Rightarrow> (pyfloat list list \<Rightarrow> nat list \<Rightarrow> error + pyfloat) \<Rightarrow> 'm
   \<Rightarrow> ('x \<times> nat) list list \<Rightarrow> pyfloat \<Rightarrow> nat list \<Rightarrow> nat list \<Rightarrow> pyfloat list
   \<Rightarrow> error + (pyfloat \<times> nat list \<times> nat list \<times> pyfloat list)" where
  "evaluate_loop_f net crit m [] total_loss all_preds all_labels all_confidences =
     Inr (total_loss, all_preds, all_labels, all_confidences)"
| "evaluate_loop_f net crit m (batch # rest) total_loss all_preds all_labels all_confidences =
     (let logits = map (\<lambda>(x, y). fn_forward net m x) batch
      in case crit logits (map snd batch) of
           Inl e \<Rightarrow> Inl e
         | Inr loss \<Rightarrow>
             (let probs = map softmax_f logits;
                  cps = map torch_max_f probs
              in evaluate_loop_f net crit m rest (pf_add total_loss loss)
                   (all_preds @ map snd cps) (all_labels @ map snd batch)
                   (all_confidences @ map fst cps)))"

definition evaluate_f ::
  "('s, 'm, 'x) float_net \<Rightarrow> (pyfloat list list \<Rightarrow> nat list \<Rightarrow> error + pyfloat) \<Rightarrow> 'm
   \<Rightarrow> ('x \<times> nat) list list \<Rightarrow> Config
   \<Rightarrow> error + (pyfloat \<times> real \<times> real \<times> nat list \<times> nat list \<times> pyfloat list)" where
  "evaluate_f net crit m dataloader cfg =
     (case evaluate_loop_f net crit m dataloader (Finite 0) [] [] [] of
        Inl e \<Rightarrow> Inl e
      | Inr (total_loss, all_preds, all_labels, all_confidences) \<Rightarrow>
          if length dataloader = 0 then Inl ZeroDivisionError
          else
            (let avg_loss = pf_div_len total_loss (length dataloader);
                 accuracy = accuracy_score all_labels all_preds;
                 adjusted = adjusted_loop_f (CONFIDENCE_THRESHOLD cfg)
                              (zip all_preds all_confidences) [];
                 adjusted_accuracy = accuracy_score all_labels adjusted
             in Inr (avg_loss, accuracy, adjusted_accuracy, all_preds, all_labels,
                     all_confidences)))"

fun train_fold_loop_f ::
  "('s, 'm, 'x) float_net \<Rightarrow> Config \<Rightarrow> (pyfloat list list \<Rightarrow> nat list \<Rightarrow> error + pyfloat)
   \<Rightarrow> ('x \<times> nat) list list \<Rightarrow> ('x \<times> nat) list list \<Rightarrow> nat
   \<Rightarrow> 's \<Rightarrow> history \<Rightarrow> real \<Rightarrow> 'm EarlyStopping
   \<Rightarrow> error + ('s \<times> history \<times> real \<times> 'm EarlyStopping)" where
  "train_fold_loop_f net cfg crit train_loader val_loader 0 s h best_val_acc es =
     Inr (s, h, best_val_acc, es)"
| "train_fold_loop_f net cfg crit train_loader val_loader (Suc n) s h best_val_acc es =
     (case train_epoch_f net crit s train_loader of
        Inl e \<Rightarrow> Inl e
      | Inr (tr_loss, tr_acc, s1) \<Rightarrow>
          (case evaluate_f net crit (fn_state_dict net s1) val_loader cfg of
             Inl e \<Rightarrow> Inl e
           | Inr (v_loss, v_acc, v_acc_adj, ps, ls, cs) \<Rightarrow>
               (let h1 = h\<lparr>train_loss := train_loss h @ [tr_loss],
                            train_acc := train_acc h @ [tr_acc],
                            val_loss := val_loss h @ [v_loss],
                            val_acc := val_acc h @ [v_acc],
                            val_acc_adjusted := val_acc_adjusted h @ [v_acc_adj]\<rparr>;
                    best1 = (if v_acc > best_val_acc then v_acc else best_val_acc);
                    (stop, es1) = EarlyStopping_call es v_acc (fn_state_dict net s1)
                in if stop then Inr (s1, h1, best1, es1)
                   else train_fold_loop_f net cfg crit train_loader val_loader n s1 h1 best1
                          es1)))"

definition train_fold_f ::
  "('s, 'm, 'x) float_net \<Rightarrow> nat \<Rightarrow> ('x \<times> nat) list list \<Rightarrow> ('x \<times> nat) list list \<Rightarrow> Config
   \<Rightarrow> error + ('m \<times> history \<times> real option)" where
  "train_fold_f net fold_ix train_loader val_loader cfg =
     (case train_fold_loop_f net cfg (get_loss_criterion cfg) train_loader val_loader
             (nat (MAX_EPOCHS cfg)) (fn_new_model net fold_ix) history_init 0
             (EarlyStopping_init (EARLY_STOPPING_PATIENCE cfg) (1 / 1000)) of
        Inl e \<Rightarrow> Inl e
      | Inr (s, h, best_val_acc, es) \<Rightarrow>
          (case load_state_dict (best_model_state es) of
             Inl e \<Rightarrow> Inl e
           | Inr model \<Rightarrow> Inr (model, h, best_score es)))"

subsection \<open>A network with finite logits\<close>

text \<open>
  The collaborators of the record \<open>extern\<close> as a network of this section: the same logits,
  all finite.
\<close>

definition lift_net :: "('s, 'm, 'x) extern \<Rightarrow> ('s, 'm, 'x) float_net" where
  "lift_net ext =
     \<lparr>fn_new_model = new_model ext,
      fn_train_forward = (\<lambda>s batch. map (map Finite) (train_forward ext s batch)),
      fn_optimizer_step = optimizer_step ext,
      fn_state_dict = state_dict ext,
      fn_forward = (\<lambda>m x. map Finite (forward ext m x))\<rparr>"

section \<open>Early stopping on a sequence of scores\<close>

text \<open>
  The loop of \<^verbatim>\<open>train_fold\<close> reduced to its early-stopping call: the scores and snapshots
  of the epochs are given as a list, the loop breaks at the first call that returns
  \<^verbatim>\<open>True\<close>. The result is the number of epochs run and the object after the last call.
\<close>

fun early_stopping_run :: "'m EarlyStopping \<Rightarrow> (real \<times> 'm) list \<Rightarrow> nat \<times> 'm EarlyStopping" where
  "early_stopping_run es [] = (0, es)"
| "early_stopping_run es ((v, m) # rest) =
     (case EarlyStopping_call es v m of
        (stop, es1) \<Rightarrow>
          if stop then (1, es1)
          else (case early_stopping_run es1 rest of (k, es2) \<Rightarrow> (Suc k, es2)))"

subsection \<open>The policy as the specification words it\<close>

text \<open>
  The policy of the specification: \<open>best_score\<close> (initially unset) and \<open>stale_count\<close>
  (initially 0). After a score \<open>s\<close>: if \<open>best_score\<close> is unset or
  \<open>s \<ge> best_score + min_delta\<close>, set \<open>best_score = s\<close>, snapshot the model, reset
  \<open>stale_count\<close> to 0; else increment \<open>stale_count\<close> and stop at once when it has reached
  \<open>patience\<close>. The scores and \<open>min_delta\<close> are the program's floats, so the comparison is
  the one of floats.
\<close>

record 'm spec_policy =
  sp_best_score :: "real option"
  sp_stale_count :: int
  sp_snapshot :: "'m option"

definition spec_policy_init :: "'m spec_policy" where
  "spec_policy_init = \<lparr>sp_best_score = None, sp_stale_count = 0, sp_snapshot = None\<rparr>"

definition spec_improves :: "'m spec_policy \<Rightarrow> real \<Rightarrow> real \<Rightarrow> bool" where
  "spec_improves st delta s =
     (case sp_best_score st of None \<Rightarrow> True | Some b \<Rightarrow> float_ge_sum s b delta)"

definition spec_policy_step ::
  "int \<Rightarrow> real \<Rightarrow> 'm spec_policy \<Rightarrow> real \<Rightarrow> 'm \<Rightarrow> bool \<times> 'm spec_policy" where
  "spec_policy_step pat delta st s m =
     (if spec_improves st delta s
      then (False, \<lparr>sp_best_score = Some s, sp_stale_count = 0, sp_snapshot = Some m\<rparr>)
      else (sp_stale_count st + 1 \<ge> pat, st\<lparr>sp_stale_count := sp_stale_count st + 1\<rparr>))"

fun spec_policy_run ::
  "int \<Rightarrow> real \<Rightarrow> 'm spec_policy \<Rightarrow> (real \<times> 'm) list \<Rightarrow> nat \<times> bool \<times> 'm spec_policy" where
  "spec_policy_run pat delta st [] = (0, False, st)"
| "spec_policy_run pat delta st ((s, m) # rest) =
     (case spec_policy_step pat delta st s m of
        (stop, st1) \<Rightarrow>
          if stop then (1, True, st1)
          else (case spec_policy_run pat delta st1 rest of
                  (k, stopped, st2) \<Rightarrow> (Suc k, stopped, st2)))"

subsection \<open>The epoch whose snapshot is kept\<close>

text \<open>
  The epoch whose score and snapshot are held after the epochs \<open>0, \<dots>, n\<close> with the scores
  \<open>accs\<close>: epoch 0 at first; a later epoch replaces the held one unless the float test
  \<^verbatim>\<open>score < best_score + min_delta\<close> finds its score too low. It is the last epoch whose
  score was the first score or an improvement.
\<close>

fun best_epoch :: "real \<Rightarrow> real list \<Rightarrow> nat \<Rightarrow> nat" where
  "best_epoch delta accs 0 = 0"
| "best_epoch delta accs (Suc n) =
     (if float_lt_sum (accs ! Suc n) (accs ! best_epoch delta accs n) delta
      then best_epoch delta accs n else Suc n)"

subsection \<open>The scores of a fold\<close>

text \<open>
  The scores and snapshots that the epochs of \<^verbatim>\<open>train_fold\<close> produce when no epoch is cut
  off: the sequence on which the early-stopping object is called.
\<close>

fun epoch_trace ::
  "('s, 'm, 'x) extern \<Rightarrow> Config \<Rightarrow> ('x \<times> nat) list list \<Rightarrow> ('x \<times> nat) list list \<Rightarrow> nat \<Rightarrow> 's
   \<Rightarrow> (real \<times> 'm) list" where
  "epoch_trace ext cfg train_loader val_loader 0 s = []"
| "epoch_trace ext cfg train_loader val_loader (Suc n) s =
     (case train_epoch ext s train_loader of
        Inl e \<Rightarrow> []
      | Inr (tr_loss, tr_acc, s1) \<Rightarrow>
          (case evaluate ext (state_dict ext s1) val_loader cfg of
             Inl e \<Rightarrow> []
           | Inr (v_loss, v_acc, v_acc_adj, ps, ls, cs) \<Rightarrow>
               (v_acc, state_dict ext s1) # epoch_trace ext cfg train_loader val_loader n s1))"

section \<open>Invariants\<close>

text \<open>
  The validation accuracy of a model \<open>m\<close> is \<open>b\<close>: \<^verbatim>\<open>evaluate\<close> on the validation loader
  returns the accuracy \<open>b\<close> for it.
\<close>

definition snapshot_scores ::
  "('s, 'm, 'x) extern \<Rightarrow> Config \<Rightarrow> ('x \<times> nat) list list \<Rightarrow> 'm \<Rightarrow> real \<Rightarrow> bool" where
  "snapshot_scores ext cfg val_loader m b =
     (case evaluate ext m val_loader cfg of
        Inl e \<Rightarrow> False
      | Inr (v_loss, v_acc, v_acc_adj, ps, ls, cs) \<Rightarrow> v_acc = b)"

text \<open>
  What holds of the early-stopping object after the epochs \<open>pre\<close> (scores and snapshots):
  before the first epoch nothing is held; afterwards the best score and the snapshot are
  those of the epoch \<open>best_epoch\<close>.
\<close>

definition es_inv :: "real \<Rightarrow> 'm EarlyStopping \<Rightarrow> (real \<times> 'm) list \<Rightarrow> bool" where
  "es_inv delta es pre \<longleftrightarrow>
     min_delta es = delta \<and>
     (if pre = [] then best_score es = None \<and> best_model_state es = None
      else best_score es = Some (fst (pre ! best_epoch delta (map fst pre) (length pre - 1))) \<and>
           best_model_state es
             = Some (snd (pre ! best_epoch delta (map fst pre) (length pre - 1))))"

text \<open>
  What holds of the state of the fold loop of \<^verbatim>\<open>run_cross_validation\<close> after \<open>k\<close> folds:
  \<open>best_fold_acc\<close> bounds every recorded accuracy; without a winner it is still 0 and no
  state is kept; with a winner it is the winner's accuracy, positive, not reached by any
  earlier fold.
\<close>

definition cv_inv :: "nat \<Rightarrow> 'm cv_state \<Rightarrow> bool" where
  "cv_inv k st =
     (case st of
        (fold_results, all_histories, best_fold, best_fold_acc, bms) \<Rightarrow>
          length fold_results = k \<and> length all_histories = k \<and>
          list_all (\<lambda>r. best_val_accuracy r \<le> best_fold_acc) fold_results \<and>
          (if best_fold = - 1 then best_fold_acc = 0 \<and> bms = None
           else 0 \<le> best_fold \<and> nat best_fold < k \<and> 0 < best_fold_acc \<and> bms \<noteq> None \<and>
                best_val_accuracy (fold_results ! nat best_fold) = best_fold_acc \<and>
                fold_num (fold_results ! nat best_fold) = nat best_fold + 1 \<and>
                list_all (\<lambda>r. best_val_accuracy r < best_fold_acc)
                  (take (nat best_fold) fold_results)))"

text \<open>
  The correspondence between the \<^verbatim>\<open>EarlyStopping\<close> object and the state of the
  specification's policy while the loop has not stopped.
\<close>

definition es_rel :: "int \<Rightarrow> real \<Rightarrow> 'm EarlyStopping \<Rightarrow> 'm spec_policy \<Rightarrow> bool" where
  "es_rel p d es st \<longleftrightarrow>
     patience es = p \<and> min_delta es = d \<and> \<not> early_stop es \<and>
     best_score es = sp_best_score st \<and> counter es = sp_stale_count st \<and>
     best_model_state es = sp_snapshot st \<and> (best_score es = None \<longrightarrow> counter es = 0)"

text \<open>
  The link between the loop state and the folds trained so far: every recorded accuracy
  and history is what \<^verbatim>\<open>train_fold\<close> returned for that fold, and the kept state is the
  model that \<^verbatim>\<open>train_fold\<close> returned for the winner.
\<close>

definition cv_models ::
  "('s, 'm, 'x) extern \<Rightarrow> Config \<Rightarrow> string list \<Rightarrow> nat list \<Rightarrow> (nat list \<times> nat list) list
   \<Rightarrow> 'm cv_state \<Rightarrow> bool" where
  "cv_models ext cfg txts lbls pre st =
     (case st of
        (fold_results, all_histories, best_fold, best_fold_acc, bms) \<Rightarrow>
          (\<forall>j < length pre.
             \<exists>m. fold_outcome ext cfg txts lbls (pre ! j) j
                   = Inr (m, all_histories ! j, Some (best_val_accuracy (fold_results ! j)))) \<and>
          (best_fold \<noteq> - 1 \<longrightarrow>
             (\<exists>m. bms = Some m \<and>
                  fold_outcome ext cfg txts lbls (pre ! nat best_fold) (nat best_fold)
                    = Inr (m, all_histories ! nat best_fold, Some best_fold_acc))))"

text \<open>
  A per-dataset result is well formed: one prediction per label, at least one example,
  and the raw accuracy is the number of correct predictions over the number of examples.
\<close>

definition pooled_ok :: "dataset_result \<Rightarrow> bool" where
  "pooled_ok res \<longleftrightarrow>
     length (res_predictions res) = length (res_labels res) \<and> 0 < length (res_labels res) \<and>
     raw_accuracy res
       = real (n_correct (res_labels res) (res_predictions res)) / real (length (res_labels res))"

section \<open>Concrete collaborators for the examples\<close>

text \<open>
  A small classifier for the examples: inputs are the texts themselves, a training state
  is the number of batches seen so far (plus ten times the fold index), the criterion
  gives every batch the same loss, and the logits are given by \<open>fwd\<close>, in training mode
  too. \<open>zeros\<close> gives every label the same probability (the arg-max is label 0);
  \<open>toward j\<close> prefers label \<open>j\<close>.
\<close>

definition toy_ext ::
  "(nat \<Rightarrow> string \<Rightarrow> real list) \<Rightarrow> pyfloat \<Rightarrow> (nat list \<times> nat list) list
   \<Rightarrow> (nat, nat, string) extern" where
  "toy_ext fwd loss splits =
     \<lparr>skf_split = (\<lambda>k txts lbls. Inr splits), tokenizer = (\<lambda>t. t), permute = (\<lambda>d. d),
      new_model = (\<lambda>k. 10 * k),
      train_forward = (\<lambda>s batch. map (\<lambda>(x, y). fwd s x) batch),
      optimizer_step = (\<lambda>s batch l. Suc s),
      state_dict = (\<lambda>s. s), forward = fwd, criterion = (\<lambda>lg ls. loss)\<rparr>"

definition zeros :: "real list" where
  "zeros = [0, 0, 0, 0, 0, 0]"

definition toward :: "nat \<Rightarrow> real list" where
  "toward j = map (\<lambda>i. if i = j then 1 else 0) [0, 1, 2, 3, 4, 5]"

definition toy_cfg :: "int \<Rightarrow> int \<Rightarrow> Config" where
  "toy_cfg epochs pat = Config_default\<lparr>MAX_EPOCHS := epochs, EARLY_STOPPING_PATIENCE := pat, N_FOLDS := 2\<rparr>"

text \<open>The confidence of a prediction whose logits are \<open>toward j\<close>.\<close>

definition toward_conf :: real where
  "toward_conf = exp 1 / (5 + exp 1)"

text \<open>
  A fold whose second epoch gains one validation example out of 1001: the classifier
  answers label 0 everywhere, except that after two batches it answers label 1 on the
  text \<open>b\<close>. All validation labels are 1.
\<close>

definition c1_ext :: "(nat, nat, string) extern" where
  "c1_ext = toy_ext (\<lambda>m x. if m = 2 \<and> x = ''b'' then toward 1 else zeros) (Finite 1) []"

definition c1_val_loader :: "(string \<times> nat) list list" where
  "c1_val_loader = [replicate 1000 (''a'', 1) @ [(''b'', 1)]]"

text \<open>
  A validation loader of 1000 examples for the same classifier: 937 are answered
  correctly at every epoch, the text \<open>b\<close> from the second epoch on, and 62 never.
\<close>

definition c1_val_loader_1000 :: "(string \<times> nat) list list" where
  "c1_val_loader_1000 = [replicate 937 (''a'', 0) @ [(''b'', 1)] @ replicate 62 (''c'', 1)]"

text \<open>The history of a fold of one epoch with loss 1 and adjusted accuracy 0.\<close>

definition h_one :: "real \<Rightarrow> real \<Rightarrow> history" where
  "h_one ta va = \<lparr>train_loss = [Finite 1], train_acc = [ta], val_loss = [Finite 1],
      val_acc = [va], val_acc_adjusted = [0]\<rparr>"

text \<open>
  A network that diverges: before its first update every logit is 0; after an update
  every logit is NaN, in training and in evaluation.
\<close>

definition nans :: "pyfloat list" where
  "nans = [NaN, NaN, NaN, NaN, NaN, NaN]"

definition c7_net :: "(nat, nat, string) float_net" where
  "c7_net =
     \<lparr>fn_new_model = (\<lambda>k. 0),
      fn_train_forward = (\<lambda>s batch. map (\<lambda>b. if s = 0 then map Finite zeros else nans) batch),
      fn_optimizer_step = (\<lambda>s batch l. Suc s),
      fn_state_dict = (\<lambda>s. s),
      fn_forward = (\<lambda>m x. if m = 0 then map Finite zeros else nans)\<rparr>"

text \<open>
  A classifier that reads the predicted label off a one-letter text, and two data sets:
  ten rows of which eight are predicted correctly, and five rows that are all predicted
  correctly. Every label occurs.
\<close>

definition c5_ext :: "(nat, nat, string) extern" where
  "c5_ext =
     toy_ext
       (\<lambda>m x. case map_of [(''s'', 0), (''q'', 1), (''r'', 2), (''x'', 3), (''c'', 4), (''u'', 5)] x of
                 Some j \<Rightarrow> toward j
               | None \<Rightarrow> zeros)
       (Finite 1) []"

definition c5_A :: "(string \<times> string) list" where
  "c5_A =
     [(''s'', ''save''), (''q'', ''search''), (''r'', ''reminder''), (''x'', ''cancel_all''),
      (''c'', ''cancel_specific''), (''u'', ''unclear''), (''s'', ''save''), (''q'', ''search''),
      (''r'', ''save''), (''x'', ''search'')]"

definition c5_B :: "(string \<times> string) list" where
  "c5_B =
     [(''s'', ''save''), (''q'', ''search''), (''r'', ''reminder''), (''x'', ''cancel_all''),
      (''c'', ''cancel_specific'')]"

section \<open>Facts about binary floating point\<close>

lemma rne_cases: "rne y = \<lfloor>y\<rfloor> \<or> rne y = \<lfloor>y\<rfloor> + 1"
  by (simp add: rne_def Let_def)

lemma rne_of_int [simp]: "rne (of_int n) = n"
  by (simp add: rne_def Let_def)

lemma rne_ge: "of_int n \<le> y \<Longrightarrow> n \<le> rne y"
proof -
  assume "of_int n \<le> y"
  then have "n \<le> \<lfloor>y\<rfloor>" by (simp add: le_floor_iff)
  with rne_cases [of y] show ?thesis by auto
qed

lemma rne_le: "y \<le> of_int n \<Longrightarrow> rne y \<le> n"
proof (cases "y = of_int n")
  case True
  then show ?thesis by simp
next
  case False
  assume "y \<le> of_int n"
  with False have "y < of_int n" by simp
  then have "\<lfloor>y\<rfloor> < n" by (simp add: floor_less_iff)
  with rne_cases [of y] show ?thesis by auto
qed

lemma rne_mono: "y1 \<le> y2 \<Longrightarrow> rne y1 \<le> rne y2"
proof -
  assume le: "y1 \<le> y2"
  then have fl: "\<lfloor>y1\<rfloor> \<le> \<lfloor>y2\<rfloor>" by (rule floor_mono)
  show ?thesis
  proof (cases "\<lfloor>y1\<rfloor> = \<lfloor>y2\<rfloor>")
    case True
    with le show ?thesis by (auto simp: rne_def Let_def)
  next
    case False
    with fl have "\<lfloor>y1\<rfloor> + 1 \<le> \<lfloor>y2\<rfloor>" by simp
    with rne_cases [of y1] rne_cases [of y2] show ?thesis by auto
  qed
qed

lemma powr_powi: "(2::real) powr real_of_int j = 2 powi j"
  by (simp add: powr_real_of_int')

lemma binade_iff:
  "0 < x \<Longrightarrow> \<lfloor>log 2 x\<rfloor> = k \<longleftrightarrow> 2 powi k \<le> x \<and> x < 2 powi (k + 1)"
  using floor_log_eq_powr_iff [of x 2 k] unfolding powr_powi by simp

lemma binade_bounds:
  assumes "0 < x"
  shows "2 powi \<lfloor>log 2 x\<rfloor> \<le> x" and "x < 2 powi (\<lfloor>log 2 x\<rfloor> + 1)"
  using binade_iff [OF assms, of "\<lfloor>log 2 x\<rfloor>"] by simp_all

lemma binade_eq:
  assumes "0 < x" "2 powi k \<le> x" "x < 2 powi (k + 1)"
  shows "\<lfloor>log 2 x\<rfloor> = k"
  using binade_iff [OF assms(1), of k] assms(2,3) by simp

lemma ulp64_pos: "0 < ulp64 x"
  by (simp add: ulp64_def)

lemma scaled_bounds:
  assumes "0 < x"
  shows "2 ^ 52 \<le> x / ulp64 x" and "x / ulp64 x < 2 ^ 53"
proof -
  let ?e = "\<lfloor>log 2 x\<rfloor>"
  have u: "ulp64 x * 2 ^ 52 = 2 powi ?e"
    by (simp add: ulp64_def power_int_diff)
  have u2: "ulp64 x * 2 ^ 53 = 2 powi (?e + 1)"
    by (simp add: ulp64_def power_int_diff power_int_add)
  from binade_bounds [OF assms] u u2 ulp64_pos [of x]
  show "2 ^ 52 \<le> x / ulp64 x" and "x / ulp64 x < 2 ^ 53"
    by (simp_all add: pos_le_divide_eq pos_divide_less_eq mult.commute)
qed

lemma fl64_pos_eq: "0 < x \<Longrightarrow> fl64 x = ulp64 x * of_int (rne (x / ulp64 x))"
  by (simp add: fl64_def)

lemma fl64_bounds:
  assumes "0 < x"
  shows "2 powi \<lfloor>log 2 x\<rfloor> \<le> fl64 x" and "fl64 x \<le> 2 powi (\<lfloor>log 2 x\<rfloor> + 1)"
proof -
  let ?e = "\<lfloor>log 2 x\<rfloor>"
  have u: "ulp64 x * 2 ^ 52 = 2 powi ?e"
    by (simp add: ulp64_def power_int_diff)
  have u2: "ulp64 x * 2 ^ 53 = 2 powi (?e + 1)"
    by (simp add: ulp64_def power_int_diff power_int_add)
  have "(2 ^ 52 :: int) \<le> rne (x / ulp64 x)"
    using scaled_bounds(1) [OF assms] by (intro rne_ge) simp
  then have "(2 ^ 52 :: real) \<le> of_int (rne (x / ulp64 x))"
    by (metis of_int_le_iff of_int_numeral of_int_power)
  then have "ulp64 x * 2 ^ 52 \<le> ulp64 x * of_int (rne (x / ulp64 x))"
    using ulp64_pos [of x] by (intro mult_left_mono) simp_all
  then show "2 powi ?e \<le> fl64 x" using u assms by (simp add: fl64_pos_eq)
  have "rne (x / ulp64 x) \<le> (2 ^ 53 :: int)"
    using scaled_bounds(2) [OF assms] by (intro rne_le) simp
  then have "of_int (rne (x / ulp64 x)) \<le> (2 ^ 53 :: real)"
    by (metis of_int_le_iff of_int_numeral of_int_power)
  then have "ulp64 x * of_int (rne (x / ulp64 x)) \<le> ulp64 x * 2 ^ 53"
    using ulp64_pos [of x] by (intro mult_left_mono) simp_all
  then show "fl64 x \<le> 2 powi (?e + 1)" using u2 assms by (simp add: fl64_pos_eq)
qed

lemma fl64_mono_pos:
  assumes "0 < x" "x \<le> y"
  shows "fl64 x \<le> fl64 y"
proof -
  have y: "0 < y" using assms by simp
  have le: "\<lfloor>log 2 x\<rfloor> \<le> \<lfloor>log 2 y\<rfloor>"
    using assms by (intro floor_mono) simp
  show ?thesis
  proof (cases "\<lfloor>log 2 x\<rfloor> = \<lfloor>log 2 y\<rfloor>")
    case True
    then have u: "ulp64 x = ulp64 y" by (simp add: ulp64_def)
    have "x / ulp64 y \<le> y / ulp64 y"
      using assms ulp64_pos [of y] by (simp add: divide_right_mono)
    then have "rne (x / ulp64 y) \<le> rne (y / ulp64 y)" by (rule rne_mono)
    then have "ulp64 y * of_int (rne (x / ulp64 y)) \<le> ulp64 y * of_int (rne (y / ulp64 y))"
      using ulp64_pos [of y] by (intro mult_left_mono) simp_all
    with u assms y show ?thesis by (simp add: fl64_pos_eq)
  next
    case False
    with le have "\<lfloor>log 2 x\<rfloor> + 1 \<le> \<lfloor>log 2 y\<rfloor>" by simp
    then have "(2::real) powi (\<lfloor>log 2 x\<rfloor> + 1) \<le> 2 powi \<lfloor>log 2 y\<rfloor>"
      by (intro power_int_increasing) simp_all
    with fl64_bounds(2) [OF assms(1)] fl64_bounds(1) [OF y] show ?thesis by linarith
  qed
qed

lemma fl64_zero [simp]: "fl64 0 = 0"
  by (simp add: fl64_def)

lemma fl64_pos: "0 < x \<Longrightarrow> 0 < fl64 x"
proof -
  assume x: "0 < x"
  have "(0::real) < 2 powi \<lfloor>log 2 x\<rfloor>" by simp
  with fl64_bounds(1) [OF x] show ?thesis by linarith
qed

lemma fl64_nonneg: "0 \<le> x \<Longrightarrow> 0 \<le> fl64 x"
  using fl64_pos [of x] by (cases "x = 0") (auto simp: less_le)

lemma fl64_mono: "0 \<le> x \<Longrightarrow> x \<le> y \<Longrightarrow> fl64 x \<le> fl64 y"
  using fl64_mono_pos [of x y] fl64_nonneg [of y] by (cases "x = 0") auto

lemma fl64_idem_pos:
  assumes "0 < x"
  shows "fl64 (fl64 x) = fl64 x"
proof -
  let ?e = "\<lfloor>log 2 x\<rfloor>"
  let ?n = "rne (x / ulp64 x)"
  have fx: "fl64 x = ulp64 x * of_int ?n" using assms by (simp add: fl64_pos_eq)
  have fpos: "0 < fl64 x" using assms by (rule fl64_pos)
  have u2: "ulp64 x * 2 ^ 53 = 2 powi (?e + 1)"
    by (simp add: ulp64_def power_int_diff power_int_add)
  show ?thesis
  proof (cases "fl64 x < 2 powi (?e + 1)")
    case True
    have "\<lfloor>log 2 (fl64 x)\<rfloor> = ?e"
      using fpos fl64_bounds(1) [OF assms] True by (rule binade_eq)
    then have u: "ulp64 (fl64 x) = ulp64 x" by (simp add: ulp64_def)
    have "fl64 x / ulp64 x = of_int ?n" using ulp64_pos [of x] by (simp add: fx)
    then have "rne (fl64 x / ulp64 x) = ?n" by (simp only: rne_of_int)
    then have "ulp64 (fl64 x) * of_int (rne (fl64 x / ulp64 (fl64 x))) = ulp64 x * of_int ?n"
      by (simp only: u)
    then show ?thesis by (simp only: fl64_pos_eq [OF fpos] fx [symmetric])
  next
    case False
    with fl64_bounds(2) [OF assms] have eq: "fl64 x = 2 powi (?e + 1)" by simp
    have "\<lfloor>log 2 (fl64 x)\<rfloor> = ?e + 1"
    proof (rule binade_eq [OF fpos])
      show "2 powi (?e + 1) \<le> fl64 x" by (simp add: eq)
      have "(2::real) powi (?e + 1) < 2 powi (?e + 1 + 1)"
        by (intro power_int_strict_increasing) simp_all
      then show "fl64 x < 2 powi (?e + 1 + 1)" by (simp add: eq)
    qed
    then have u: "ulp64 (fl64 x) = 2 * ulp64 x"
      by (simp add: ulp64_def power_int_diff power_int_add)
    have fx2: "fl64 x = ulp64 x * 2 ^ 53" by (simp only: eq u2)
    have "fl64 x / (2 * ulp64 x) = of_int (2 ^ 52)"
      using ulp64_pos [of x] by (simp add: fx2)
    then have "rne (fl64 x / ulp64 (fl64 x)) = 2 ^ 52"
      unfolding u by (simp only: rne_of_int)
    then have "ulp64 (fl64 x) * of_int (rne (fl64 x / ulp64 (fl64 x))) = ulp64 x * 2 ^ 53"
      by (simp add: u)
    then show ?thesis by (simp only: fl64_pos_eq [OF fpos] fx2 [symmetric])
  qed
qed

lemma fl64_idem: "0 \<le> x \<Longrightarrow> fl64 (fl64 x) = fl64 x"
  using fl64_idem_pos [of x] by (cases "x = 0") auto

lemma fl64_add_ge:
  assumes "0 \<le> x" "0 \<le> d"
  shows "fl64 x \<le> fl64 (fl64 x + fl64 d)"
proof -
  have "fl64 (fl64 x) \<le> fl64 (fl64 x + fl64 d)"
    using fl64_nonneg [OF assms(1)] fl64_nonneg [OF assms(2)] by (intro fl64_mono) simp_all
  then show ?thesis using assms(1) by (simp add: fl64_idem)
qed

lemma rne_err: "\<bar>of_int (rne y) - y\<bar> \<le> 1 / 2"
proof -
  have "of_int \<lfloor>y\<rfloor> \<le> y" "y < of_int \<lfloor>y\<rfloor> + 1" by linarith+
  then show ?thesis by (auto simp: rne_def Let_def abs_le_iff)
qed

lemma fl64_err:
  assumes "0 < x"
  shows "\<bar>fl64 x - x\<bar> \<le> ulp64 x / 2"
proof -
  let ?u = "ulp64 x"
  have u: "0 < ?u" by (rule ulp64_pos)
  have "fl64 x - x = ?u * (of_int (rne (x / ?u)) - x / ?u)"
    using assms u by (simp add: fl64_pos_eq algebra_simps)
  then have "\<bar>fl64 x - x\<bar> = ?u * \<bar>of_int (rne (x / ?u)) - x / ?u\<bar>"
    using u by (simp add: abs_mult)
  also have "\<dots> \<le> ?u * (1 / 2)"
    using u rne_err [of "x / ?u"] by (intro mult_left_mono) simp_all
  finally show ?thesis by simp
qed

lemma ulp64_le:
  assumes "0 < x" "x < 2 powi (k + 1)"
  shows "ulp64 x \<le> 2 powi (k - 52)"
proof -
  have "\<lfloor>log 2 x\<rfloor> \<le> k"
  proof (rule ccontr)
    assume "\<not> \<lfloor>log 2 x\<rfloor> \<le> k"
    then have "k + 1 \<le> \<lfloor>log 2 x\<rfloor>" by simp
    then have "(2::real) powi (k + 1) \<le> 2 powi \<lfloor>log 2 x\<rfloor>"
      by (intro power_int_increasing) simp_all
    with binade_bounds(1) [OF assms(1)] assms(2) show False by linarith
  qed
  then have "\<lfloor>log 2 x\<rfloor> - 52 \<le> k - 52" by simp
  then show ?thesis unfolding ulp64_def by (intro power_int_increasing) simp_all
qed

lemma fl64_err_below_2:
  assumes "0 \<le> x" "x < 2"
  shows "\<bar>fl64 x - x\<bar> \<le> 1 / 2 ^ 53"
proof (cases "x = 0")
  case True
  then show ?thesis by simp
next
  case False
  with assms have x: "0 < x" by simp
  have "ulp64 x \<le> 2 powi (0 - 52)" using x assms(2) by (intro ulp64_le) simp_all
  then have "ulp64 x \<le> 1 / 2 ^ 52" by (simp add: power_int_minus field_simps)
  with fl64_err [OF x] show ?thesis by simp
qed

lemma fl64_eval:
  assumes "0 < x" "2 powi k \<le> x" "x < 2 powi (k + 1)"
  shows "fl64 x = fl64_at k x"
proof -
  have e: "\<lfloor>log 2 x\<rfloor> = k" using assms by (rule binade_eq)
  have "x / 2 powi (k - 52) = x * 2 powi (52 - k)"
    by (simp add: power_int_diff field_simps)
  then show ?thesis using assms(1) by (simp add: fl64_pos_eq ulp64_def e fl64_at_def)
qed

lemma rne_numeral [simp]: "rne (numeral n) = numeral n"
  using rne_of_int [of "numeral n"] by simp

lemma fl64_half: "fl64 (1 / 2) = 1 / 2"
  by (subst fl64_eval [of _ "- 1"]) (simp_all add: fl64_at_def)

lemma fl64_one: "fl64 1 = 1"
  by (subst fl64_eval [of _ 0]) (simp_all add: fl64_at_def)

lemma fl64_delta: "fl64 (1 / 1000) = 4611686018427388 / 2 ^ 62"
  by (subst fl64_eval [of _ "- 10"]) (simp_all add: fl64_at_def rne_def Let_def)

lemma fl64_le_one: "0 \<le> x \<Longrightarrow> x \<le> 1 \<Longrightarrow> fl64 x \<le> 1"
  using fl64_mono [of x 1] by (simp add: fl64_one)

text \<open>
  Adding \<^verbatim>\<open>min_delta\<close> = 0.001 to an accuracy gives a greater float.
\<close>

lemma fl64_add_delta_gt:
  assumes "0 \<le> a" "a \<le> 1"
  shows "fl64 a < fl64 (fl64 a + fl64 (1 / 1000))"
proof -
  let ?y = "fl64 a + fl64 (1 / 1000)"
  have f: "0 \<le> fl64 a" "fl64 a \<le> 1"
    using assms by (simp_all add: fl64_nonneg fl64_le_one)
  have "\<bar>fl64 ?y - ?y\<bar> \<le> 1 / 2 ^ 53"
    using f by (intro fl64_err_below_2) (simp_all add: fl64_delta)
  then have "?y - 1 / 2 ^ 53 \<le> fl64 ?y" by linarith
  moreover have "(1::real) / 2 ^ 53 < fl64 (1 / 1000)" by (simp add: fl64_delta)
  ultimately show ?thesis by linarith
qed

text \<open>
  What the float test \<^verbatim>\<open>score < best + 0.001\<close> allows on accuracies, in exact terms: a
  score that passes it exceeds the best by less than 0.001 plus four rounding errors.
\<close>

lemma float_lt_sum_real:
  assumes "0 \<le> a" "a \<le> 1" "0 \<le> s" "s \<le> 1" "float_lt_sum a s (1 / 1000)"
  shows "a < s + 1 / 1000 + 1 / 2 ^ 51"
proof -
  let ?y = "fl64 s + fl64 (1 / 1000)"
  have fs: "0 \<le> fl64 s" "fl64 s \<le> 1"
    using assms by (simp_all add: fl64_nonneg fl64_le_one)
  have e1: "\<bar>fl64 a - a\<bar> \<le> 1 / 2 ^ 53" using assms by (intro fl64_err_below_2) simp_all
  have e2: "\<bar>fl64 s - s\<bar> \<le> 1 / 2 ^ 53" using assms by (intro fl64_err_below_2) simp_all
  have e3: "\<bar>fl64 (1 / 1000) - 1 / 1000\<bar> \<le> 1 / 2 ^ 53"
    by (intro fl64_err_below_2) simp_all
  have e4: "\<bar>fl64 ?y - ?y\<bar> \<le> 1 / 2 ^ 53"
    using fs by (intro fl64_err_below_2) (simp_all add: fl64_delta)
  have q: "(1::real) / 2 ^ 51 = 4 * (1 / 2 ^ 53)" by simp
  from assms(5) have "fl64 a < fl64 ?y" by (simp add: float_lt_sum_def)
  with e1 e2 e3 e4 show ?thesis unfolding q by linarith
qed

lemma float_ge_sum_iff: "float_ge_sum s b d \<longleftrightarrow> \<not> float_lt_sum s b d"
  by (auto simp: float_ge_sum_def float_lt_sum_def)

lemma float_lt_sum_eval:
  assumes "fl64 score = a" "fl64 best = b" "fl64 delta = d" "fl64 (b + d) = c"
  shows "float_lt_sum score best delta \<longleftrightarrow> a < c"
  using assms by (simp add: float_lt_sum_def)

text \<open>The float tests that the examples meet.\<close>

lemma float_lt_sum_half: "float_lt_sum (1 / 2) (1 / 2) (1 / 1000)"
proof -
  have "fl64 (1 / 2 + 4611686018427388 / 2 ^ 62) = 4512606826625237 / 2 ^ 53"
    by (subst fl64_eval [of _ "- 1"]) (simp_all add: fl64_at_def rne_def Let_def)
  from float_lt_sum_eval [OF fl64_half fl64_half fl64_delta this] show ?thesis by simp
qed

lemma float_lt_sum_one_zero: "\<not> float_lt_sum 1 0 (1 / 1000)"
proof -
  have "fl64 (0 + 4611686018427388 / 2 ^ 62) = 4611686018427388 / 2 ^ 62"
    by (subst fl64_eval [of _ "- 10"]) (simp_all add: fl64_at_def rne_def Let_def)
  from float_lt_sum_eval [OF fl64_one fl64_zero fl64_delta this] show ?thesis by simp
qed

lemma float_lt_sum_1001: "float_lt_sum (1 / 1001) 0 (1 / 1000)"
proof -
  have a: "fl64 (1 / 1001) = 4607078939487900 / 2 ^ 62"
    by (subst fl64_eval [of _ "- 10"]) (simp_all add: fl64_at_def rne_def Let_def)
  have "fl64 (0 + 4611686018427388 / 2 ^ 62) = 4611686018427388 / 2 ^ 62"
    by (subst fl64_eval [of _ "- 10"]) (simp_all add: fl64_at_def rne_def Let_def)
  from float_lt_sum_eval [OF a fl64_zero fl64_delta this] show ?thesis by simp
qed

text \<open>
  In Python \<^verbatim>\<open>0.938 < 0.937 + 0.001\<close> is \<^verbatim>\<open>True\<close>: the sum is rounded up to
  0.9380000000000001.
\<close>

lemma float_lt_sum_938: "float_lt_sum (938 / 1000) (937 / 1000) (1 / 1000)"
proof -
  have a: "fl64 (938 / 1000) = 8448752900947050 / 2 ^ 53"
    by (subst fl64_eval [of _ "- 1"]) (simp_all add: fl64_at_def rne_def Let_def)
  have b: "fl64 (937 / 1000) = 8439745701692310 / 2 ^ 53"
    by (subst fl64_eval [of _ "- 1"]) (simp_all add: fl64_at_def rne_def Let_def)
  have "fl64 (8439745701692310 / 2 ^ 53 + 4611686018427388 / 2 ^ 62)
          = 8448752900947051 / 2 ^ 53"
    by (subst fl64_eval [of _ "- 1"]) (simp_all add: fl64_at_def rne_def Let_def)
  from float_lt_sum_eval [OF a b fl64_delta this] show ?thesis by simp
qed

section \<open>Facts about the library functions\<close>

lemma LABEL2ID_unclear_eq: "LABEL2ID_unclear = 5"
  by (simp add: LABEL2ID_unclear_def LABEL2ID_def)

lemma adjusted_loop_map:
  "adjusted_loop t zs acc = acc @ map (\<lambda>(p, c). if c < t then LABEL2ID_unclear else p) zs"
  by (induction zs arbitrary: acc) auto

lemma adjusted_preds_map:
  "adjusted_preds t ps cs = map (\<lambda>(p, c). if c < t then LABEL2ID_unclear else p) (zip ps cs)"
  by (simp add: adjusted_preds_def adjusted_loop_map)

lemma adjusted_preds_pass:
  assumes "length ps = length cs" and "list_all (\<lambda>c. \<not> c < t) cs"
  shows "adjusted_preds t ps cs = ps"
  using assms unfolding adjusted_preds_map
  by (induction ps cs rule: list_induct2) auto






lemma sum_exp_pos: "zs \<noteq> [] \<Longrightarrow> 0 < sum_list (map exp (zs :: real list))"
proof (cases zs)
  case Nil
  assume "zs \<noteq> []"
  with Nil show ?thesis by simp
next
  case (Cons z zs')
  have "0 \<le> sum_list (map exp zs')" by (rule sum_list_nonneg) auto
  then have "0 < exp z + sum_list (map exp zs')" by (intro add_pos_nonneg) simp_all
  with Cons show ?thesis by simp
qed

lemma sum_list_map_divide:
  fixes c :: real
  shows "sum_list (map (\<lambda>z. f z / c) zs) = sum_list (map f zs) / c"
  by (induction zs) (simp_all add: add_divide_distrib)

lemma softmax_sum: "zs \<noteq> [] \<Longrightarrow> sum_list (softmax zs) = 1"
proof -
  assume ne: "zs \<noteq> []"
  have "sum_list (softmax zs) = sum_list (map exp zs) / sum_list (map exp zs)"
    unfolding softmax_def by (rule sum_list_map_divide)
  with sum_exp_pos [OF ne] show ?thesis by simp
qed

lemma softmax_pos: "p \<in> set (softmax zs) \<Longrightarrow> 0 < p"
proof -
  assume "p \<in> set (softmax zs)"
  then obtain z where "z \<in> set zs" and p: "p = exp z / sum_list (map exp zs)"
    by (auto simp: softmax_def)
  then have "zs \<noteq> []" by auto
  with p sum_exp_pos show ?thesis by simp
qed

lemma softmax_le_one: "p \<in> set (softmax zs) \<Longrightarrow> p \<le> 1"
proof -
  assume a: "p \<in> set (softmax zs)"
  then have ne: "zs \<noteq> []" by (auto simp: softmax_def)
  have "p \<le> sum_list (softmax zs)"
    using a softmax_pos by (intro member_le_sum_list) (auto intro: less_imp_le)
  with softmax_sum [OF ne] show ?thesis by simp
qed






lemma tm_zeros: "torch_max (softmax zeros) = (1 / 6, 0)"
  by (simp add: softmax_def zeros_def)

section \<open>The confidence-threshold decision policy\<close>

text \<open>
  Claim C3. The threshold loop is a function of the predictions, the confidences and the
  threshold alone: position \<open>i\<close> of its result is the label \<^verbatim>\<open>unclear\<close> when confidence \<open>i\<close>
  is below the threshold, and prediction \<open>i\<close> otherwise. With threshold 0 and confidences
  that are not negative nothing is overridden; with threshold 1 and confidences that are
  at most 1 every prediction becomes \<^verbatim>\<open>unclear\<close> unless its confidence is exactly 1.
\<close>

theorem threshold_policy:
  assumes "length all_preds = length all_confidences"
  shows "length (adjusted_preds t all_preds all_confidences) = length all_preds \<and>
         (\<forall>i < length all_preds.
            adjusted_preds t all_preds all_confidences ! i =
              (if all_confidences ! i < t then LABEL2ID_unclear else all_preds ! i)) \<and>
         map_of LABEL2ID ''unclear'' = Some LABEL2ID_unclear \<and>
         ((\<forall>c \<in> set all_confidences. 0 \<le> c) \<longrightarrow>
            adjusted_preds 0 all_preds all_confidences = all_preds) \<and>
         ((\<forall>c \<in> set all_confidences. c \<le> 1) \<longrightarrow>
            (\<forall>i < length all_preds.
               adjusted_preds 1 all_preds all_confidences ! i =
                 (if all_confidences ! i = 1 then all_preds ! i else LABEL2ID_unclear)))"
proof (intro conjI impI allI)
  show "length (adjusted_preds t all_preds all_confidences) = length all_preds"
    using assms by (simp add: adjusted_preds_map)
  show "map_of LABEL2ID ''unclear'' = Some LABEL2ID_unclear"
    by (simp add: LABEL2ID_unclear_def LABEL2ID_def)
next
  fix i assume "i < length all_preds"
  then show "adjusted_preds t all_preds all_confidences ! i =
              (if all_confidences ! i < t then LABEL2ID_unclear else all_preds ! i)"
    using assms by (simp add: adjusted_preds_map)
next
  assume "\<forall>c \<in> set all_confidences. 0 \<le> c"
  then have "list_all (\<lambda>c. \<not> c < 0) all_confidences"
    by (simp add: list_all_iff not_less)
  with assms show "adjusted_preds 0 all_preds all_confidences = all_preds"
    by (rule adjusted_preds_pass)
next
  fix i assume le: "\<forall>c \<in> set all_confidences. c \<le> 1" and i: "i < length all_preds"
  then have "all_confidences ! i \<le> 1" using assms by simp
  then have "all_confidences ! i < 1 \<longleftrightarrow> all_confidences ! i \<noteq> 1" by auto
  with i show "adjusted_preds 1 all_preds all_confidences ! i =
                 (if all_confidences ! i = 1 then all_preds ! i else LABEL2ID_unclear)"
    using assms by (simp add: adjusted_preds_map)
qed

text \<open>The policy on three predictions with confidences 0, 1/2 and 1.\<close>

theorem threshold_policy_witness:
  "length [0, 1, 2 :: nat] = length [0, 1 / 2, 1 :: real] \<and>
   list_all (\<lambda>c. 0 \<le> c \<and> c \<le> 1) [0, 1 / 2, 1 :: real] \<and>
   adjusted_preds (7 / 10) [0, 1, 2] [0, 1 / 2, 1] = [LABEL2ID_unclear, LABEL2ID_unclear, 2] \<and>
   adjusted_preds 0 [0, 1, 2] [0, 1 / 2, 1] = [0, 1, 2] \<and>
   adjusted_preds 1 [0, 1, 2] [0, 1 / 2, 1] = [LABEL2ID_unclear, LABEL2ID_unclear, 2]"
  using threshold_policy [of "[0, 1, 2]" "[0, 1 / 2, 1]" "7 / 10"]
  by (simp add: adjusted_preds_def)

text \<open>
  Claim C8. For fixed predictions and confidences, raising the threshold never lowers
  the number of final labels that are \<^verbatim>\<open>unclear\<close>.
\<close>

theorem threshold_monotone:
  assumes "t1 \<le> t2"
  shows "count_list (adjusted_preds t1 all_preds all_confidences) LABEL2ID_unclear
         \<le> count_list (adjusted_preds t2 all_preds all_confidences) LABEL2ID_unclear"
proof -
  have "count_list (map (\<lambda>(p, c). if c < t1 then LABEL2ID_unclear else p) zs) LABEL2ID_unclear
        \<le> count_list (map (\<lambda>(p, c). if c < t2 then LABEL2ID_unclear else p) zs) LABEL2ID_unclear"
    for zs :: "(nat \<times> real) list"
    using assms by (induction zs) (auto split: if_splits)
  then show ?thesis by (simp add: adjusted_preds_map)
qed

text \<open>Thresholds 1/2 and 7/10 on four predictions: two, then four \<^verbatim>\<open>unclear\<close> labels.\<close>

theorem threshold_monotone_witness:
  "(1 / 2 :: real) \<le> 7 / 10 \<and>
   count_list (adjusted_preds (1 / 2) [0, 1, 2, 5] [3 / 10, 6 / 10, 1 / 2, 1 / 10]) LABEL2ID_unclear = 2 \<and>
   count_list (adjusted_preds (7 / 10) [0, 1, 2, 5] [3 / 10, 6 / 10, 1 / 2, 1 / 10]) LABEL2ID_unclear = 4"
  using threshold_monotone [of "1 / 2" "7 / 10" "[0, 1, 2, 5]" "[3 / 10, 6 / 10, 1 / 2, 1 / 10]"]
  by (simp add: adjusted_preds_def LABEL2ID_unclear_eq)



section \<open>Facts about the example collaborators\<close>

lemma exp1_frac: "1 / (5 + exp (1::real)) < exp 1 / (5 + exp 1)"
  by (intro divide_strict_right_mono add_pos_pos) simp_all

lemma tm_toward:
  "torch_max (softmax (toward 0)) = (toward_conf, 0)"
  "torch_max (softmax (toward 1)) = (toward_conf, 1)"
  "torch_max (softmax (toward 2)) = (toward_conf, 2)"
  "torch_max (softmax (toward 3)) = (toward_conf, 3)"
  "torch_max (softmax (toward 4)) = (toward_conf, 4)"
  "torch_max (softmax (toward 5)) = (toward_conf, 5)"
  "torch_max (softmax (toward (Suc 0))) = (toward_conf, Suc 0)"
  using exp1_frac
  by (simp_all add: softmax_def toward_def toward_conf_def add.commute less_imp_not_less)

lemma toward_conf_lt: "toward_conf < 7 / 10"
proof -
  have "exp (1::real) \<le> 3" by (rule exp_le)
  moreover have "0 < 5 + exp (1::real)" by (intro add_pos_pos) simp_all
  ultimately show ?thesis by (simp add: toward_conf_def divide_less_eq)
qed

lemma toward_conf_lt': "toward_conf * 10 < 7"
  using toward_conf_lt by simp

lemma toy_cfg_sel:
  "MAX_EPOCHS (toy_cfg a b) = a" "EARLY_STOPPING_PATIENCE (toy_cfg a b) = b"
  "CONFIDENCE_THRESHOLD (toy_cfg a b) = 7 / 10" "BATCH_SIZE (toy_cfg a b) = 16"
  "N_FOLDS (toy_cfg a b) = 2" "NUM_LABELS (toy_cfg a b) = 6"
  by (simp_all add: toy_cfg_def Config_default_def)

lemma argmax_zeros: "argmax zeros = 0"
  by (simp add: argmax_def zeros_def)

lemmas toy_eval_simps =
  train_fold_def train_epoch_def evaluate_def toy_ext_def toy_cfg_def Config_default_def
  tm_zeros argmax_zeros accuracy_score_def n_correct_def adjusted_preds_def
  EarlyStopping_init_def EarlyStopping_call_def history_init_def load_state_dict_def Let_def
  float_lt_sum_half float_lt_sum_one_zero float_lt_sum_1001

lemma c1_eval_1:
  "evaluate c1_ext (Suc 0) c1_val_loader (toy_cfg 2 3)
   = Inr (Finite 1, 0, 0, replicate 1000 0 @ [0], replicate 1000 1 @ [1],
          replicate 1000 (1 / 6) @ [1 / 6])"
  by (simp add: c1_ext_def c1_val_loader_def evaluate_def toy_ext_def toy_cfg_def
      Config_default_def tm_zeros accuracy_score_def n_correct_def adjusted_preds_map
      LABEL2ID_unclear_eq Let_def)

lemma c1_eval_2:
  "evaluate c1_ext (Suc (Suc 0)) c1_val_loader (toy_cfg 2 3)
   = Inr (Finite 1, 1 / 1001, 0, replicate 1000 0 @ [1], replicate 1000 1 @ [1],
          replicate 1000 (1 / 6) @ [toward_conf])"
  by (simp add: c1_ext_def c1_val_loader_def evaluate_def toy_ext_def toy_cfg_def
      Config_default_def tm_zeros tm_toward toward_conf_lt' accuracy_score_def n_correct_def
      adjusted_preds_map LABEL2ID_unclear_eq Let_def)

section \<open>Early stopping\<close>

lemma es_rel_init: "es_rel p d (EarlyStopping_init p d) spec_policy_init"
  by (simp add: es_rel_def EarlyStopping_init_def spec_policy_init_def)

lemma es_rel_step:
  assumes "es_rel p d es st"
    and "EarlyStopping_call es v m = (stop, es1)"
    and "spec_policy_step p d st v m = (stop', st1)"
  shows "stop' = stop \<and> early_stop es1 = stop \<and> best_score es1 = sp_best_score st1 \<and>
         counter es1 = sp_stale_count st1 \<and> best_model_state es1 = sp_snapshot st1 \<and>
         (\<not> stop \<longrightarrow> es_rel p d es1 st1)"
  using assms
  by (auto simp: es_rel_def EarlyStopping_call_def spec_policy_step_def spec_improves_def
      float_ge_sum_iff Let_def split: option.splits if_splits)

lemma es_rel_run:
  assumes "es_rel p d es st"
  shows "(case early_stopping_run es xs of
            (k, es') \<Rightarrow> (k, early_stop es', best_score es', counter es', best_model_state es'))
         = (case spec_policy_run p d st xs of
              (k, stopped, st') \<Rightarrow>
                (k, stopped, sp_best_score st', sp_stale_count st', sp_snapshot st'))"
  using assms
proof (induction xs arbitrary: es st)
  case Nil
  then show ?case by (simp add: es_rel_def)
next
  case (Cons x xs)
  obtain v m where x: "x = (v, m)" by (cases x)
  obtain stop es1 where c: "EarlyStopping_call es v m = (stop, es1)"
    by (cases "EarlyStopping_call es v m")
  obtain stop' st1 where sp: "spec_policy_step p d st v m = (stop', st1)"
    by (cases "spec_policy_step p d st v m")
  note step = es_rel_step [OF Cons.prems c sp]
  show ?case
  proof (cases stop)
    case True
    with step x c sp show ?thesis by simp
  next
    case False
    with step have "es_rel p d es1 st1" by simp
    from Cons.IH [OF this] False step x c sp show ?thesis
      by (simp split: prod.splits)
  qed
qed

lemma train_fold_loop_run:
  assumes "train_fold_loop ext cfg trl vll n s h bva es = Inr (s', h', bva', es')"
  shows "case early_stopping_run es (epoch_trace ext cfg trl vll n s) of
           (k, es2) \<Rightarrow>
             es' = es2 \<and>
             val_acc h' = val_acc h @ map fst (take k (epoch_trace ext cfg trl vll n s))"
  using assms
proof (induction n arbitrary: s h bva es)
  case 0
  then show ?case by simp
next
  case (Suc n)
  from Suc.prems obtain tr_loss tr_acc s1 where
    te: "train_epoch ext s trl = Inr (tr_loss, tr_acc, s1)"
    by (auto split: sum.splits)
  from Suc.prems te obtain v_loss v_acc v_adj ps ls cs where
    ev: "evaluate ext (state_dict ext s1) vll cfg = Inr (v_loss, v_acc, v_adj, ps, ls, cs)"
    by (auto split: sum.splits)
  obtain stop es1 where c: "EarlyStopping_call es v_acc (state_dict ext s1) = (stop, es1)"
    by (cases "EarlyStopping_call es v_acc (state_dict ext s1)")
  define h1 where "h1 = h\<lparr>train_loss := train_loss h @ [tr_loss],
                            train_acc := train_acc h @ [tr_acc],
                            val_loss := val_loss h @ [v_loss],
                            val_acc := val_acc h @ [v_acc],
                            val_acc_adjusted := val_acc_adjusted h @ [v_adj]\<rparr>"
  show ?case
  proof (cases stop)
    case True
    with Suc.prems te ev c show ?thesis by (auto simp: Let_def)
  next
    case False
    with Suc.prems te ev c have
      "train_fold_loop ext cfg trl vll n s1 h1
         (if v_acc > bva then v_acc else bva) es1 = Inr (s', h', bva', es')"
      by (simp add: Let_def h1_def)
    from Suc.IH [OF this] False te ev c show ?thesis
      by (simp add: h1_def split: prod.splits)
  qed
qed

text \<open>
  Claim C2. On every sequence of scores and snapshots, started from its initial state,
  the \<^verbatim>\<open>EarlyStopping\<close> object run by the loop of \<^verbatim>\<open>train_fold\<close> agrees with the policy
  of the specification: the same number of epochs is run, the loop stops in the same
  cases, and best score, stale counter and snapshot are equal. On the scores
  0.5, 0.5, 0.5, 0.5 with patience 2 and \<^verbatim>\<open>min_delta\<close> 0.001 three epochs are run and the
  loop has stopped; the fourth epoch is not run. A result of \<^verbatim>\<open>train_fold\<close> is the result of
  that run on the scores and snapshots of its epochs.
\<close>

theorem early_stopping_policy:
  fixes ext :: "('s, 'm, 'x) extern"
  shows
  "(case early_stopping_run (EarlyStopping_init pat delta) epochs of
      (k, es) \<Rightarrow> (k, early_stop es, best_score es, counter es, best_model_state es))
   = (case spec_policy_run pat delta spec_policy_init epochs of
        (k, stopped, st) \<Rightarrow>
          (k, stopped, sp_best_score st, sp_stale_count st, sp_snapshot st)) \<and>
   (case early_stopping_run (EarlyStopping_init 2 (1 / 1000))
           [(1 / 2, m1), (1 / 2, m2), (1 / 2, m3), (1 / 2, m4)] of
      (k, es) \<Rightarrow> k = 3 \<and> early_stop es \<and> best_model_state es = Some m1) \<and>
   (train_fold ext fold_ix trl vll cfg = Inr (model, h, b) \<longrightarrow>
      (case early_stopping_run (EarlyStopping_init (EARLY_STOPPING_PATIENCE cfg) (1 / 1000))
              (epoch_trace ext cfg trl vll (nat (MAX_EPOCHS cfg)) (new_model ext fold_ix)) of
         (k, es) \<Rightarrow>
           val_acc h =
             map fst (take k (epoch_trace ext cfg trl vll (nat (MAX_EPOCHS cfg))
                                (new_model ext fold_ix))) \<and>
           b = best_score es \<and> best_model_state es = Some model))"
proof (intro conjI impI)
  show "(case early_stopping_run (EarlyStopping_init pat delta) epochs of
           (k, es) \<Rightarrow> (k, early_stop es, best_score es, counter es, best_model_state es))
        = (case spec_policy_run pat delta spec_policy_init epochs of
             (k, stopped, st) \<Rightarrow>
               (k, stopped, sp_best_score st, sp_stale_count st, sp_snapshot st))"
    by (rule es_rel_run [OF es_rel_init])
  show "case early_stopping_run (EarlyStopping_init 2 (1 / 1000))
               [(1 / 2, m1), (1 / 2, m2), (1 / 2, m3), (1 / 2, m4)] of
          (k, es) \<Rightarrow> k = 3 \<and> early_stop es \<and> best_model_state es = Some m1"
    by (simp add: EarlyStopping_init_def EarlyStopping_call_def float_lt_sum_half Let_def)
next
  assume tf: "train_fold ext fold_ix trl vll cfg = Inr (model, h, b)"
  let ?es0 = "EarlyStopping_init (EARLY_STOPPING_PATIENCE cfg) (1 / 1000) :: 'm EarlyStopping"
  let ?tr = "epoch_trace ext cfg trl vll (nat (MAX_EPOCHS cfg)) (new_model ext fold_ix)"
  from tf obtain s' bva' es' where
    lp: "train_fold_loop ext cfg trl vll (nat (MAX_EPOCHS cfg)) (new_model ext fold_ix)
           history_init 0 ?es0 = Inr (s', h, bva', es')"
    and ld: "load_state_dict (best_model_state es') = Inr model" and b: "b = best_score es'"
    by (auto simp: train_fold_def split: sum.splits)
  from ld have "best_model_state es' = Some model"
    by (simp add: load_state_dict_def split: option.splits)
  with train_fold_loop_run [OF lp] b
  show "case early_stopping_run ?es0 ?tr of
          (k, es) \<Rightarrow>
            val_acc h = map fst (take k ?tr) \<and> b = best_score es \<and>
            best_model_state es = Some model"
    by (auto simp: history_init_def split: prod.splits)
qed

text \<open>
  A fold whose validation accuracy is 0.5 at every epoch, with at most four epochs and
  patience 2: \<^verbatim>\<open>train_fold\<close> records three epochs.
\<close>

theorem early_stopping_policy_witness:
  "train_fold (toy_ext (\<lambda>m x. zeros) (Finite 1) []) 0 [[(''t'', 0)]]
      [[(''a'', 0), (''b'', 1)]] (toy_cfg 4 2)
   = Inr (1, \<lparr>train_loss = [Finite 1, Finite 1, Finite 1], train_acc = [1, 1, 1],
              val_loss = [Finite 1, Finite 1, Finite 1], val_acc = [1 / 2, 1 / 2, 1 / 2],
              val_acc_adjusted = [0, 0, 0]\<rparr>, Some (1 / 2)) \<and>
   MAX_EPOCHS (toy_cfg 4 2) = 4 \<and> EARLY_STOPPING_PATIENCE (toy_cfg 4 2) = 2 \<and>
   epoch_trace (toy_ext (\<lambda>m x. zeros) (Finite 1) []) (toy_cfg 4 2) [[(''t'', 0)]]
      [[(''a'', 0), (''b'', 1)]] 4 0 = [(1 / 2, 1), (1 / 2, 2), (1 / 2, 3), (1 / 2, 4)] \<and>
   fst (early_stopping_run (EarlyStopping_init 2 (1 / 1000))
          [(1 / 2, 1 :: nat), (1 / 2, 2), (1 / 2, 3), (1 / 2, 4)]) = 3"
  using early_stopping_policy [of 2 "1 / 1000" "[]" "1 :: nat" 2 3 4
      "toy_ext (\<lambda>m x. zeros) (Finite 1) []" 0 "[[(''t'', 0)]]" "[[(''a'', 0), (''b'', 1)]]"
      "toy_cfg 4 2" 1
      "\<lparr>train_loss = [Finite 1, Finite 1, Finite 1], train_acc = [1, 1, 1],
        val_loss = [Finite 1, Finite 1, Finite 1], val_acc = [1 / 2, 1 / 2, 1 / 2],
        val_acc_adjusted = [0, 0, 0]\<rparr>" "Some (1 / 2)"]
  by (simp add: toy_eval_simps eval_nat_numeral LABEL2ID_unclear_def LABEL2ID_def)

section \<open>The checkpoint that train\_fold returns\<close>

lemma best_epoch_le: "best_epoch d accs n \<le> n"
  by (induction n) (auto simp: le_SucI)

lemma best_epoch_append: "n < length as \<Longrightarrow> best_epoch d (as @ bs) n = best_epoch d as n"
proof (induction n)
  case 0
  then show ?case by simp
next
  case (Suc n)
  then have ih: "best_epoch d (as @ bs) n = best_epoch d as n" by simp
  have "best_epoch d as n < length as"
    using best_epoch_le [of d as n] Suc.prems by simp
  with ih Suc.prems show ?case by (simp add: nth_append)
qed

lemma accuracy_score_bounds: "0 \<le> accuracy_score yt yp \<and> accuracy_score yt yp \<le> 1"
proof -
  have "n_correct yt yp \<le> length (zip yt yp)"
    unfolding n_correct_def by (rule length_filter_le)
  then have "n_correct yt yp \<le> length yt" by simp
  then show ?thesis by (simp add: accuracy_score_def divide_le_eq_1)
qed

lemma evaluate_acc_bounds:
  "evaluate ext m dl cfg = Inr (l, a, adj, ps, ls, cs) \<Longrightarrow> 0 \<le> a \<and> a \<le> 1"
  using accuracy_score_bounds
  by (auto simp: evaluate_def Let_def split: prod.splits if_splits)

lemma epoch_trace_scores:
  "(v, m) \<in> set (epoch_trace ext cfg trl vll n s) \<Longrightarrow>
     snapshot_scores ext cfg vll m v \<and> 0 \<le> v \<and> v \<le> 1"
proof (induction n arbitrary: s)
  case 0
  then show ?case by simp
next
  case (Suc n)
  then show ?case
    by (auto simp: snapshot_scores_def dest: evaluate_acc_bounds split: sum.splits)
qed

lemma es_inv_init: "es_inv d (EarlyStopping_init p d) []"
  by (simp add: es_inv_def EarlyStopping_init_def)

lemma es_inv_call:
  assumes "es_inv d es pre" and "EarlyStopping_call es v m = (stop, es1)"
  shows "es_inv d es1 (pre @ [(v, m)])"
proof (cases "pre = []")
  case True
  with assms show ?thesis
    by (auto simp: es_inv_def EarlyStopping_call_def Let_def)
next
  case False
  define n where "n = length pre - 1"
  define k where "k = best_epoch d (map fst pre) n"
  from False have len: "length pre = Suc n" by (simp add: n_def)
  have kn: "k \<le> n" unfolding k_def by (rule best_epoch_le)
  have pre: "best_epoch d (map fst pre @ [v]) n = k"
    unfolding k_def using len by (intro best_epoch_append) simp
  have nk: "(map fst pre @ [v]) ! k = fst (pre ! k)"
    using kn len by (simp add: nth_append)
  have nv: "(map fst pre @ [v]) ! Suc n = v"
    using len by (simp add: nth_append)
  have be: "best_epoch d (map fst (pre @ [(v, m)])) (length (pre @ [(v, m)]) - 1)
              = (if float_lt_sum v (fst (pre ! k)) d then k else Suc n)"
    using len by (simp add: pre nk nv)
  from assms(1) False have st: "min_delta es = d" "best_score es = Some (fst (pre ! k))"
    "best_model_state es = Some (snd (pre ! k))"
    by (simp_all add: es_inv_def k_def n_def)
  show ?thesis
  proof (cases "float_lt_sum v (fst (pre ! k)) d")
    case True
    with assms(2) st have "min_delta es1 = d" "best_score es1 = Some (fst (pre ! k))"
      "best_model_state es1 = Some (snd (pre ! k))"
      by (auto simp: EarlyStopping_call_def Let_def split: if_splits)
    moreover have "(pre @ [(v, m)]) ! k = pre ! k" using kn len by (simp add: nth_append)
    ultimately show ?thesis unfolding es_inv_def be using True by simp
  next
    case False
    with assms(2) st have "min_delta es1 = d" "best_score es1 = Some v"
      "best_model_state es1 = Some m"
      by (auto simp: EarlyStopping_call_def Let_def split: if_splits)
    moreover have "(pre @ [(v, m)]) ! Suc n = (v, m)" using len by (simp add: nth_append)
    ultimately show ?thesis unfolding es_inv_def be using False by simp
  qed
qed

lemma es_inv_run:
  assumes "es_inv d es pre" and "early_stopping_run es rest = (n, es')"
  shows "n \<le> length rest \<and> es_inv d es' (pre @ take n rest)"
  using assms
proof (induction rest arbitrary: es pre n es')
  case Nil
  then show ?case by simp
next
  case (Cons x rest)
  obtain v m where x: "x = (v, m)" by (cases x)
  obtain stop es1 where c: "EarlyStopping_call es v m = (stop, es1)"
    by (cases "EarlyStopping_call es v m")
  have inv1: "es_inv d es1 (pre @ [(v, m)])" using Cons.prems(1) c by (rule es_inv_call)
  show ?case
  proof (cases stop)
    case True
    with Cons.prems(2) x c inv1 show ?thesis by auto
  next
    case False
    obtain n1 es2 where r: "early_stopping_run es1 rest = (n1, es2)"
      by (cases "early_stopping_run es1 rest")
    from Cons.IH [OF inv1 r] Cons.prems(2) x c False r show ?thesis by auto
  qed
qed

text \<open>
  The bounds that hold at the kept epoch when the scores are accuracies and
  \<^verbatim>\<open>min_delta\<close> is 0.001: every earlier epoch has a smaller float, and every epoch is below
  the kept score plus \<^verbatim>\<open>min_delta\<close> in the float test.
\<close>

lemma best_epoch_bounds:
  assumes "n < length accs" and "\<forall>a \<in> set accs. 0 \<le> a \<and> a \<le> 1"
  shows "(\<forall>j < best_epoch (1 / 1000) accs n.
            fl64 (accs ! j) < fl64 (accs ! best_epoch (1 / 1000) accs n)) \<and>
         (\<forall>j \<le> n. float_lt_sum (accs ! j) (accs ! best_epoch (1 / 1000) accs n) (1 / 1000))"
  using assms(1)
proof (induction n)
  case 0
  have "0 \<le> accs ! 0 \<and> accs ! 0 \<le> 1" using 0 assms(2) by (simp add: nth_mem)
  then show ?case by (simp add: float_lt_sum_def fl64_add_delta_gt)
next
  case (Suc n)
  define k where "k = best_epoch (1 / 1000) accs n"
  have kn: "k \<le> n" unfolding k_def by (rule best_epoch_le)
  from Suc have ih1: "\<forall>j < k. fl64 (accs ! j) < fl64 (accs ! k)"
    and ih2: "\<forall>j \<le> n. float_lt_sum (accs ! j) (accs ! k) (1 / 1000)"
    by (simp_all add: k_def)
  have rng: "0 \<le> accs ! j \<and> accs ! j \<le> 1" if "j \<le> Suc n" for j
    using that Suc.prems assms(2) by (simp add: nth_mem)
  show ?case
  proof (cases "float_lt_sum (accs ! Suc n) (accs ! k) (1 / 1000)")
    case True
    then have be: "best_epoch (1 / 1000) accs (Suc n) = k" by (simp add: k_def)
    show ?thesis unfolding be using ih1 ih2 True by (auto simp: le_Suc_eq)
  next
    case False
    then have be: "best_epoch (1 / 1000) accs (Suc n) = Suc n" by (simp add: k_def)
    from False have ge: "fl64 (fl64 (accs ! k) + fl64 (1 / 1000)) \<le> fl64 (accs ! Suc n)"
      by (simp add: float_lt_sum_def)
    have lt: "fl64 (accs ! j) < fl64 (accs ! Suc n)" if "j \<le> n" for j
      using ih2 that ge by (fastforce simp: float_lt_sum_def)
    have top: "fl64 (accs ! Suc n) < fl64 (fl64 (accs ! Suc n) + fl64 (1 / 1000))"
      using rng [of "Suc n"] by (intro fl64_add_delta_gt) simp_all
    have "float_lt_sum (accs ! j) (accs ! Suc n) (1 / 1000)" if "j \<le> Suc n" for j
    proof (cases "j = Suc n")
      case True
      with top show ?thesis by (simp add: float_lt_sum_def)
    next
      case False
      with that have "j \<le> n" by simp
      from lt [OF this] top show ?thesis by (simp add: float_lt_sum_def)
    qed
    with lt show ?thesis unfolding be by (auto simp: less_Suc_eq_le)
  qed
qed

lemma fl64_less_imp_less: "0 \<le> y \<Longrightarrow> fl64 x < fl64 y \<Longrightarrow> x < y"
  using fl64_mono [of y x] by (cases "x < y") auto

text \<open>
  Claim C1, as amended. The model that \<^verbatim>\<open>train_fold\<close> returns is the snapshot of the epoch
  \<open>k\<close>, the last epoch whose validation accuracy was the first one or was not found below
  the best score plus \<^verbatim>\<open>min_delta\<close> by the float test of \<^verbatim>\<open>EarlyStopping\<close>: the returned
  best score is the accuracy of epoch \<open>k\<close>, and the model has that accuracy on the
  validation loader. Every earlier epoch has a smaller accuracy; every epoch run is below
  the returned accuracy plus 0.001 in the float test, so the greatest accuracy of the
  epochs run, which the returned accuracy need not reach, exceeds it by less than
  \<open>0.001 + 2\<^sup>-\<^sup>5\<^sup>1\<close>.
\<close>

theorem best_checkpoint_last_improving:
  fixes ext :: "('s, 'm, 'x) extern"
  assumes "train_fold ext fold_ix trl vll cfg = Inr (model, h, b)"
  shows "val_acc h \<noteq> [] \<and>
         (let accs = val_acc h;
              k = best_epoch (1 / 1000) accs (length accs - 1);
              tr = epoch_trace ext cfg trl vll (nat (MAX_EPOCHS cfg)) (new_model ext fold_ix)
          in k < length accs \<and> length accs \<le> length tr \<and>
             accs = map fst (take (length accs) tr) \<and>
             model = snd (tr ! k) \<and> b = Some (accs ! k) \<and>
             snapshot_scores ext cfg vll model (accs ! k) \<and>
             (\<forall>j < k. accs ! j < accs ! k) \<and>
             (\<forall>j < length accs. float_lt_sum (accs ! j) (accs ! k) (1 / 1000)) \<and>
             accs ! k \<le> Max (set accs) \<and>
             Max (set accs) < accs ! k + 1 / 1000 + 1 / 2 ^ 51)"
proof -
  let ?es0 = "EarlyStopping_init (EARLY_STOPPING_PATIENCE cfg) (1 / 1000) :: 'm EarlyStopping"
  let ?tr = "epoch_trace ext cfg trl vll (nat (MAX_EPOCHS cfg)) (new_model ext fold_ix)"
  from assms obtain s' bva' es' where
    lp: "train_fold_loop ext cfg trl vll (nat (MAX_EPOCHS cfg)) (new_model ext fold_ix)
           history_init 0 ?es0 = Inr (s', h, bva', es')"
    and ld: "load_state_dict (best_model_state es') = Inr model" and b: "b = best_score es'"
    by (auto simp: train_fold_def split: sum.splits)
  obtain n es2 where run: "early_stopping_run ?es0 ?tr = (n, es2)"
    by (cases "early_stopping_run ?es0 ?tr")
  from train_fold_loop_run [OF lp] run
  have es: "es' = es2" and va: "val_acc h = map fst (take n ?tr)"
    by (simp_all add: history_init_def)
  from es_inv_run [OF es_inv_init run]
  have nl: "n \<le> length ?tr" and inv: "es_inv (1 / 1000) es' (take n ?tr)"
    by (simp_all add: es)
  define accs where "accs = val_acc h"
  define k where "k = best_epoch (1 / 1000) accs (length accs - 1)"
  have len: "length accs = n" using va nl by (simp add: accs_def)
  from ld have bm: "best_model_state es' = Some model"
    by (simp add: load_state_dict_def split: option.splits)
  have ne: "take n ?tr \<noteq> []"
  proof
    assume e: "take n ?tr = []"
    from inv have "best_model_state es' = None" unfolding es_inv_def e by simp
    with bm show False by simp
  qed
  then have n0: "0 < n" by auto
  have ane: "accs \<noteq> []" using len n0 by auto
  have kl: "k < length accs"
    using best_epoch_le [of "1 / 1000" accs "length accs - 1"] len n0 by (simp add: k_def)
  from inv ne bm b have held: "model = snd (take n ?tr ! k)" "b = Some (fst (take n ?tr ! k))"
    by (simp_all add: es_inv_def k_def accs_def va)
  have tk: "take n ?tr ! k = ?tr ! k" using kl len by simp
  have ak: "accs ! k = fst (?tr ! k)" using kl len nl by (simp add: accs_def va)
  have "?tr ! k \<in> set ?tr" using kl len nl by (intro nth_mem) simp
  then have "(accs ! k, model) \<in> set ?tr" using held(1) tk ak by simp
  from epoch_trace_scores [OF this]
  have sc: "snapshot_scores ext cfg vll model (accs ! k)" by simp
  have rng: "\<forall>a \<in> set accs. 0 \<le> a \<and> a \<le> 1"
  proof
    fix a assume "a \<in> set accs"
    then obtain m where "(a, m) \<in> set (take n ?tr)" by (auto simp: accs_def va)
    then have "(a, m) \<in> set ?tr" by (rule in_set_takeD)
    from epoch_trace_scores [OF this] show "0 \<le> a \<and> a \<le> 1" by simp
  qed
  have nlast: "length accs - 1 < length accs" using ane by simp
  from best_epoch_bounds [OF nlast rng]
  have b1: "\<forall>j < k. fl64 (accs ! j) < fl64 (accs ! k)"
    and b2: "\<forall>j \<le> length accs - 1. float_lt_sum (accs ! j) (accs ! k) (1 / 1000)"
    by (simp_all add: k_def)
  have rk: "0 \<le> accs ! k \<and> accs ! k \<le> 1" using rng kl by (simp add: nth_mem)
  have earlier: "\<forall>j < k. accs ! j < accs ! k"
    using b1 rk by (auto intro: fl64_less_imp_less)
  have all: "\<forall>j < length accs. float_lt_sum (accs ! j) (accs ! k) (1 / 1000)"
    using b2 by auto
  have below: "a < accs ! k + 1 / 1000 + 1 / 2 ^ 51" if "a \<in> set accs" for a
  proof -
    from that obtain j where j: "j < length accs" "a = accs ! j"
      by (auto simp: in_set_conv_nth)
    with all have "float_lt_sum a (accs ! k) (1 / 1000)" by simp
    with rng that rk show ?thesis by (intro float_lt_sum_real) simp_all
  qed
  have fin: "finite (set accs)" "set accs \<noteq> {}" using ane by simp_all
  have mx: "Max (set accs) \<in> set accs" using fin by (rule Max_in)
  have "accs ! k \<le> Max (set accs)" using kl by (intro Max_ge) simp_all
  moreover have "Max (set accs) < accs ! k + 1 / 1000 + 1 / 2 ^ 51" using below [OF mx] .
  moreover have "accs = map fst (take (length accs) ?tr)" using len va by (simp add: accs_def)
  moreover have "length accs \<le> length ?tr" using len nl by simp
  moreover have "model = snd (?tr ! k)" using held(1) tk by simp
  moreover have "b = Some (accs ! k)" using held(2) tk ak by simp
  ultimately show ?thesis
    using ane kl sc earlier all unfolding Let_def accs_def [symmetric] k_def [symmetric]
    by simp
qed

lemma float_lt_sum_938': "float_lt_sum (469 / 500) (937 / 1000) (1 / 1000)"
  using float_lt_sum_938 by simp

lemma c1_eval_1000_1:
  "evaluate c1_ext (Suc 0) c1_val_loader_1000 (toy_cfg 2 3)
   = Inr (Finite 1, 937 / 1000, 0, replicate 937 0 @ [0] @ replicate 62 0,
          replicate 937 0 @ [1] @ replicate 62 1, replicate 937 (1 / 6) @ [1 / 6] @ replicate 62 (1 / 6))"
  by (simp add: c1_ext_def c1_val_loader_1000_def evaluate_def toy_ext_def toy_cfg_def
      Config_default_def tm_zeros accuracy_score_def n_correct_def adjusted_preds_map
      LABEL2ID_unclear_eq Let_def)

lemma c1_eval_1000_2:
  "evaluate c1_ext (Suc (Suc 0)) c1_val_loader_1000 (toy_cfg 2 3)
   = Inr (Finite 1, 938 / 1000, 0, replicate 937 0 @ [1] @ replicate 62 0,
          replicate 937 0 @ [1] @ replicate 62 1,
          replicate 937 (1 / 6) @ [toward_conf] @ replicate 62 (1 / 6))"
  by (simp add: c1_ext_def c1_val_loader_1000_def evaluate_def toy_ext_def toy_cfg_def
      Config_default_def tm_zeros tm_toward toward_conf_lt' accuracy_score_def n_correct_def
      adjusted_preds_map LABEL2ID_unclear_eq Let_def)

lemma c1_train_epoch: "train_epoch c1_ext s [[(''t'', 0)]] = Inr (Finite 1, 1, Suc s)"
  by (simp add: train_epoch_def c1_ext_def toy_ext_def accuracy_score_def n_correct_def
      argmax_zeros Let_def)

lemma c1_sel: "state_dict c1_ext = (\<lambda>s. s)" "new_model c1_ext 0 = 0"
  by (simp_all add: c1_ext_def toy_ext_def)

lemma c1_train_fold_1000:
  "train_fold c1_ext 0 [[(''t'', 0)]] c1_val_loader_1000 (toy_cfg 2 3)
   = Inr (1, \<lparr>train_loss = [Finite 1, Finite 1], train_acc = [1, 1],
              val_loss = [Finite 1, Finite 1], val_acc = [937 / 1000, 938 / 1000],
              val_acc_adjusted = [0, 0]\<rparr>, Some (937 / 1000))"
  by (simp add: train_fold_def c1_train_epoch c1_sel c1_eval_1000_1 c1_eval_1000_2
      EarlyStopping_init_def EarlyStopping_call_def float_lt_sum_938' history_init_def
      load_state_dict_def Let_def eval_nat_numeral toy_cfg_sel)

lemma c1_trace_1000:
  "epoch_trace c1_ext (toy_cfg 2 3) [[(''t'', 0)]] c1_val_loader_1000 2 0
   = [(937 / 1000, 1), (938 / 1000, 2)]"
  by (simp add: c1_train_epoch c1_sel c1_eval_1000_1 c1_eval_1000_2 eval_nat_numeral)

text \<open>
  A fold with 1000 validation examples of which 937 are right at the first epoch and 938
  at the second: the float test finds 0.938 below 0.937 + 0.001, the snapshot of the first
  epoch is returned, and the greatest accuracy exceeds the returned one by 0.001.
\<close>

theorem best_checkpoint_last_improving_witness:
  "train_fold c1_ext 0 [[(''t'', 0)]] c1_val_loader_1000 (toy_cfg 2 3)
   = Inr (1, \<lparr>train_loss = [Finite 1, Finite 1], train_acc = [1, 1],
              val_loss = [Finite 1, Finite 1], val_acc = [937 / 1000, 938 / 1000],
              val_acc_adjusted = [0, 0]\<rparr>, Some (937 / 1000)) \<and>
   best_epoch (1 / 1000) [937 / 1000, 938 / 1000] 1 = 0 \<and>
   epoch_trace c1_ext (toy_cfg 2 3) [[(''t'', 0)]] c1_val_loader_1000 2 0
     = [(937 / 1000, 1), (938 / 1000, 2)] \<and>
   snapshot_scores c1_ext (toy_cfg 2 3) c1_val_loader_1000 1 (937 / 1000) \<and>
   float_lt_sum (938 / 1000) (937 / 1000) (1 / 1000) \<and>
   Max (set [937 / 1000, 938 / 1000 :: real]) = 938 / 1000 \<and>
   (938 / 1000 :: real) < 937 / 1000 + 1 / 1000 + 1 / 2 ^ 51 \<and>
   \<not> (938 / 1000 :: real) < 937 / 1000 + 1 / 1000"
  using best_checkpoint_last_improving
    [of c1_ext 0 "[[(''t'', 0)]]" c1_val_loader_1000 "toy_cfg 2 3" 1
      "\<lparr>train_loss = [Finite 1, Finite 1], train_acc = [1, 1],
        val_loss = [Finite 1, Finite 1], val_acc = [937 / 1000, 938 / 1000],
        val_acc_adjusted = [0, 0]\<rparr>" "Some (937 / 1000)"]
  by (simp add: c1_train_fold_1000 c1_train_epoch c1_sel c1_eval_1000_1 c1_eval_1000_2
      float_lt_sum_938' snapshot_scores_def toy_cfg_sel eval_nat_numeral)

text \<open>
  Claim C1 as stated fails. With 1001 validation examples, accuracy 0 at the first epoch
  and 1/1001 at the second, the second epoch is not an improvement by \<^verbatim>\<open>min_delta\<close>:
  \<^verbatim>\<open>train_fold\<close> returns the first snapshot, whose accuracy 0 is less than the maximum
  1/1001 over the epochs run.
\<close>

theorem best_checkpoint_counterexample:
  "train_fold c1_ext 0 [[(''t'', 0)]] c1_val_loader (toy_cfg 2 3)
   = Inr (1, \<lparr>train_loss = [Finite 1, Finite 1], train_acc = [1, 1],
              val_loss = [Finite 1, Finite 1], val_acc = [0, 1 / 1001],
              val_acc_adjusted = [0, 0]\<rparr>, Some 0) \<and>
   snapshot_scores c1_ext (toy_cfg 2 3) c1_val_loader 1 0 \<and>
   Max (set [0, 1 / 1001 :: real]) = 1 / 1001 \<and>
   \<not> (case train_fold c1_ext 0 [[(''t'', 0)]] c1_val_loader (toy_cfg 2 3) of
        Inl e \<Rightarrow> True
      | Inr (model, h, b) \<Rightarrow>
          snapshot_scores c1_ext (toy_cfg 2 3) c1_val_loader model (Max (set (val_acc h))))"
proof -
  have tf: "train_fold c1_ext 0 [[(''t'', 0)]] c1_val_loader (toy_cfg 2 3)
   = Inr (1, \<lparr>train_loss = [Finite 1, Finite 1], train_acc = [1, 1],
              val_loss = [Finite 1, Finite 1], val_acc = [0, 1 / 1001],
              val_acc_adjusted = [0, 0]\<rparr>, Some 0)"
    by (simp add: train_fold_def c1_train_epoch c1_sel c1_eval_1 c1_eval_2
        EarlyStopping_init_def EarlyStopping_call_def float_lt_sum_1001 history_init_def
        load_state_dict_def Let_def eval_nat_numeral toy_cfg_sel)
  have ss: "snapshot_scores c1_ext (toy_cfg 2 3) c1_val_loader 1 0"
    by (simp add: snapshot_scores_def c1_eval_1)
  show ?thesis
    unfolding tf using ss by (simp add: snapshot_scores_def c1_eval_1)
qed

section \<open>Losses and the errors of train\_fold\<close>

lemma train_epoch_error: "train_epoch ext s dl = Inl e \<Longrightarrow> e = ZeroDivisionError"
  by (auto simp: train_epoch_def split: prod.splits if_splits)

lemma evaluate_error: "evaluate ext m dl cfg = Inl e \<Longrightarrow> e = ZeroDivisionError"
  by (auto simp: evaluate_def Let_def split: prod.splits if_splits)

lemma train_fold_loop_error:
  "train_fold_loop ext cfg trl vll n s h bva es = Inl e \<Longrightarrow> e = ZeroDivisionError"
proof (induction n arbitrary: s h bva es)
  case 0
  then show ?case by simp
next
  case (Suc n)
  then show ?case
    by (auto simp: Let_def dest: train_epoch_error evaluate_error
        split: sum.splits prod.splits if_splits)
qed

lemma train_fold_error:
  "train_fold ext fold_ix trl vll cfg = Inl e \<Longrightarrow> e = ZeroDivisionError \<or> e = TypeError"
  by (auto simp: train_fold_def load_state_dict_def dest: train_fold_loop_error
      split: sum.splits option.splits)

subsection \<open>The trainer on logits that may be non-finite\<close>

lemma CrossEntropyLoss_error: "CrossEntropyLoss eps lg ls = Inl e \<Longrightarrow> e = IndexError"
  by (auto simp: CrossEntropyLoss_def split: if_splits)

lemma CrossEntropyLoss_Inr:
  "labels_in_range lg ls \<Longrightarrow> \<exists>l. CrossEntropyLoss eps lg ls = Inr l"
  by (simp add: CrossEntropyLoss_def)

lemma train_epoch_loop_f_error:
  "train_epoch_loop_f net (CrossEntropyLoss eps) dl s t ps ls = Inl e \<Longrightarrow> e = IndexError"
proof (induction dl arbitrary: s t ps ls)
  case Nil
  then show ?case by simp
next
  case (Cons b dl)
  then show ?case
    by (auto simp: Let_def dest: CrossEntropyLoss_error split: sum.splits)
qed

lemma train_epoch_f_error:
  "train_epoch_f net (CrossEntropyLoss eps) s dl = Inl e \<Longrightarrow>
     e = ZeroDivisionError \<or> e = IndexError"
  by (auto simp: train_epoch_f_def dest: train_epoch_loop_f_error
      split: sum.splits prod.splits if_splits)

lemma evaluate_loop_f_error:
  "evaluate_loop_f net (CrossEntropyLoss eps) m dl t ps ls cs = Inl e \<Longrightarrow> e = IndexError"
proof (induction dl arbitrary: t ps ls cs)
  case Nil
  then show ?case by simp
next
  case (Cons b dl)
  then show ?case
    by (auto simp: Let_def dest: CrossEntropyLoss_error split: sum.splits)
qed

lemma evaluate_f_error:
  "evaluate_f net (CrossEntropyLoss eps) m dl cfg = Inl e \<Longrightarrow>
     e = ZeroDivisionError \<or> e = IndexError"
  by (auto simp: evaluate_f_def Let_def dest: evaluate_loop_f_error
      split: sum.splits prod.splits if_splits)

lemma train_fold_loop_f_error:
  "train_fold_loop_f net cfg (CrossEntropyLoss eps) trl vll n s h bva es = Inl e \<Longrightarrow>
     e = ZeroDivisionError \<or> e = IndexError"
proof (induction n arbitrary: s h bva es)
  case 0
  then show ?case by simp
next
  case (Suc n)
  then show ?case
    by (auto simp: Let_def dest: train_epoch_f_error evaluate_f_error
        split: sum.splits prod.splits if_splits)
qed

lemma train_fold_f_error:
  "train_fold_f net fold_ix trl vll cfg = Inl e \<Longrightarrow>
     e = ZeroDivisionError \<or> e = IndexError \<or> e = TypeError"
  by (auto simp: train_fold_f_def get_loss_criterion_def load_state_dict_def
      dest: train_fold_loop_f_error split: sum.splits option.splits)

lemma train_epoch_loop_f_total:
  assumes "\<forall>s. \<forall>batch \<in> set dl. labels_in_range (fn_train_forward net s batch) (map snd batch)"
  shows "\<exists>r. train_epoch_loop_f net (CrossEntropyLoss eps) dl s t ps ls = Inr r"
  using assms
proof (induction dl arbitrary: s t ps ls)
  case Nil
  then show ?case by simp
next
  case (Cons b dl)
  from Cons.prems have "labels_in_range (fn_train_forward net s b) (map snd b)" by simp
  from CrossEntropyLoss_Inr [OF this] obtain l where
    l: "CrossEntropyLoss eps (fn_train_forward net s b) (map snd b) = Inr l" by blast
  from Cons.prems have
    "\<forall>s. \<forall>batch \<in> set dl. labels_in_range (fn_train_forward net s batch) (map snd batch)"
    by simp
  from Cons.IH [OF this] l show ?case by (simp add: Let_def)
qed

lemma train_epoch_f_total:
  assumes "dl \<noteq> []"
    and "\<forall>s. \<forall>batch \<in> set dl. labels_in_range (fn_train_forward net s batch) (map snd batch)"
  shows "\<exists>l a s1. train_epoch_f net (CrossEntropyLoss eps) s dl = Inr (l, a, s1)"
proof -
  from train_epoch_loop_f_total [OF assms(2)] obtain r where
    "train_epoch_loop_f net (CrossEntropyLoss eps) dl s (Finite 0) [] [] = Inr r" by blast
  with assms(1) show ?thesis by (cases r) (simp add: train_epoch_f_def)
qed

lemma evaluate_loop_f_total:
  assumes "\<forall>batch \<in> set dl.
             labels_in_range (map (\<lambda>(x, y). fn_forward net m x) batch) (map snd batch)"
  shows "\<exists>r. evaluate_loop_f net (CrossEntropyLoss eps) m dl t ps ls cs = Inr r"
  using assms
proof (induction dl arbitrary: t ps ls cs)
  case Nil
  then show ?case by simp
next
  case (Cons b dl)
  from Cons.prems have "labels_in_range (map (\<lambda>(x, y). fn_forward net m x) b) (map snd b)"
    by simp
  from CrossEntropyLoss_Inr [OF this] obtain l where
    l: "CrossEntropyLoss eps (map (\<lambda>(x, y). fn_forward net m x) b) (map snd b) = Inr l"
    by blast
  from Cons.prems have
    "\<forall>batch \<in> set dl.
       labels_in_range (map (\<lambda>(x, y). fn_forward net m x) batch) (map snd batch)"
    by simp
  from Cons.IH [OF this] l show ?case by (simp add: Let_def)
qed

lemma evaluate_f_total:
  assumes "dl \<noteq> []"
    and "\<forall>batch \<in> set dl.
           labels_in_range (map (\<lambda>(x, y). fn_forward net m x) batch) (map snd batch)"
  shows "\<exists>l a adj ps ls cs.
           evaluate_f net (CrossEntropyLoss eps) m dl cfg = Inr (l, a, adj, ps, ls, cs)"
proof -
  from evaluate_loop_f_total [OF assms(2)] obtain r where
    "evaluate_loop_f net (CrossEntropyLoss eps) m dl (Finite 0) [] [] [] = Inr r" by blast
  with assms(1) show ?thesis by (cases r) (simp add: evaluate_f_def Let_def)
qed

lemma EarlyStopping_call_flag: "EarlyStopping_call es v m = (stop, es1) \<Longrightarrow> early_stop es1 = stop"
  by (auto simp: EarlyStopping_call_def Let_def)

text \<open>
  The loop of \<^verbatim>\<open>train_fold\<close> returns when no loader is empty and no label is out of range.
  It ends after the given number of epochs or when the early-stopping call, which is
  given the validation accuracy, has returned \<^verbatim>\<open>True\<close>; each epoch adds one entry to every
  column of the history.
\<close>

lemma train_fold_loop_f_total:
  assumes "trl \<noteq> []" "vll \<noteq> []"
    and "\<forall>s. \<forall>batch \<in> set trl. labels_in_range (fn_train_forward net s batch) (map snd batch)"
    and "\<forall>m. \<forall>batch \<in> set vll.
           labels_in_range (map (\<lambda>(x, y). fn_forward net m x) batch) (map snd batch)"
  shows "\<exists>s' h' bva' es' xs.
           train_fold_loop_f net cfg (CrossEntropyLoss eps) trl vll n s h bva es
             = Inr (s', h', bva', es') \<and>
           val_acc h' = val_acc h @ map fst xs \<and>
           length (train_loss h') = length (train_loss h) + length xs \<and>
           length (val_loss h') = length (val_loss h) + length xs \<and>
           early_stopping_run es xs = (length xs, es') \<and>
           (length xs = n \<or> early_stop es')"
proof (induction n arbitrary: s h bva es)
  case 0
  show ?case by (rule exI [of _ s], rule exI [of _ h], rule exI [of _ bva], rule exI [of _ es],
      rule exI [of _ "[]"]) simp
next
  case (Suc n)
  let ?crit = "CrossEntropyLoss eps"
  from train_epoch_f_total [OF assms(1,3)] obtain tl ta s1 where
    te: "train_epoch_f net ?crit s trl = Inr (tl, ta, s1)" by blast
  from assms(4) have
    "\<forall>batch \<in> set vll.
       labels_in_range (map (\<lambda>(x, y). fn_forward net (fn_state_dict net s1) x) batch)
         (map snd batch)" by simp
  from evaluate_f_total [OF assms(2) this] obtain vl va vadj ps ls cs where
    ev: "evaluate_f net ?crit (fn_state_dict net s1) vll cfg = Inr (vl, va, vadj, ps, ls, cs)"
    by blast
  obtain stop es1 where c: "EarlyStopping_call es va (fn_state_dict net s1) = (stop, es1)"
    by (cases "EarlyStopping_call es va (fn_state_dict net s1)")
  define h1 where "h1 = h\<lparr>train_loss := train_loss h @ [tl],
                            train_acc := train_acc h @ [ta],
                            val_loss := val_loss h @ [vl],
                            val_acc := val_acc h @ [va],
                            val_acc_adjusted := val_acc_adjusted h @ [vadj]\<rparr>"
  define b1 where "b1 = (if va > bva then va else bva)"
  show ?case
  proof (cases stop)
    case True
    have "train_fold_loop_f net cfg ?crit trl vll (Suc n) s h bva es = Inr (s1, h1, b1, es1)"
      using te ev c True by (simp add: Let_def h1_def b1_def)
    moreover have "early_stopping_run es [(va, fn_state_dict net s1)] = (1, es1)"
      using c True by simp
    moreover have "early_stop es1" using EarlyStopping_call_flag [OF c] True by simp
    ultimately show ?thesis
      by (intro exI [of _ s1] exI [of _ h1] exI [of _ b1] exI [of _ es1]
          exI [of _ "[(va, fn_state_dict net s1)]"]) (simp add: h1_def)
  next
    case False
    from Suc.IH [of s1 h1 b1 es1] obtain s' h' bva' es' xs where
      r: "train_fold_loop_f net cfg ?crit trl vll n s1 h1 b1 es1 = Inr (s', h', bva', es')"
      "val_acc h' = val_acc h1 @ map fst xs"
      "length (train_loss h') = length (train_loss h1) + length xs"
      "length (val_loss h') = length (val_loss h1) + length xs"
      "early_stopping_run es1 xs = (length xs, es')"
      "length xs = n \<or> early_stop es'"
      by blast
    have "train_fold_loop_f net cfg ?crit trl vll (Suc n) s h bva es = Inr (s', h', bva', es')"
      using te ev c False r(1) by (simp add: Let_def h1_def b1_def)
    moreover have "early_stopping_run es ((va, fn_state_dict net s1) # xs)
                     = (length ((va, fn_state_dict net s1) # xs), es')"
      using c False r(5) by simp
    ultimately show ?thesis
      using r(2,3,4,6)
      by (intro exI [of _ s'] exI [of _ h'] exI [of _ bva'] exI [of _ es']
          exI [of _ "(va, fn_state_dict net s1) # xs"]) (simp add: h1_def)
  qed
qed

text \<open>
  Claim C7, as amended. \<^verbatim>\<open>train_fold\<close> does not fail with \<open>DivergedTrainingError\<close>, whatever
  the logits and losses are: nothing in it tests a loss or a score for finiteness. Its
  failures are \<^verbatim>\<open>ZeroDivisionError\<close> (a loader without batches), \<^verbatim>\<open>IndexError\<close> (a label that
  is not below the number of logits) and \<^verbatim>\<open>TypeError\<close> (no epoch was run). When the
  loaders are not empty, the labels are in range and \<^verbatim>\<open>MAX_EPOCHS\<close> is at least 1, it
  returns a model and a history with one loss and one accuracy per epoch; the loop ends
  after \<^verbatim>\<open>MAX_EPOCHS\<close> epochs, or earlier when the early-stopping call on the validation
  accuracies has returned \<^verbatim>\<open>True\<close>, and never because of the value of a loss.
\<close>

theorem nonfinite_loss_not_fatal:
  fixes net :: "('s, 'm, 'x) float_net"
  shows
  "train_fold_f net fold_ix trl vll cfg \<noteq> Inl DivergedTrainingError \<and>
   (train_fold_f net fold_ix trl vll cfg = Inl e \<longrightarrow>
      e = ZeroDivisionError \<or> e = IndexError \<or> e = TypeError) \<and>
   (trl \<noteq> [] \<and> vll \<noteq> [] \<and> 1 \<le> MAX_EPOCHS cfg \<and>
    (\<forall>s. \<forall>batch \<in> set trl.
       labels_in_range (fn_train_forward net s batch) (map snd batch)) \<and>
    (\<forall>m. \<forall>batch \<in> set vll.
       labels_in_range (map (\<lambda>(x, y). fn_forward net m x) batch) (map snd batch)) \<longrightarrow>
    (\<exists>model h b ms es.
       train_fold_f net fold_ix trl vll cfg = Inr (model, h, b) \<and>
       val_acc h \<noteq> [] \<and>
       length (train_loss h) = length (val_acc h) \<and>
       length (val_loss h) = length (val_acc h) \<and>
       length ms = length (val_acc h) \<and>
       early_stopping_run (EarlyStopping_init (EARLY_STOPPING_PATIENCE cfg) (1 / 1000))
         (zip (val_acc h) ms) = (length (val_acc h), es) \<and>
       best_model_state es = Some model \<and> best_score es = b \<and>
       (length (val_acc h) = nat (MAX_EPOCHS cfg) \<or> early_stop es)))"
proof (intro conjI impI)
  show "train_fold_f net fold_ix trl vll cfg \<noteq> Inl DivergedTrainingError"
    using train_fold_f_error [of net fold_ix trl vll cfg DivergedTrainingError] by auto
  show "e = ZeroDivisionError \<or> e = IndexError \<or> e = TypeError"
    if "train_fold_f net fold_ix trl vll cfg = Inl e"
    using that by (rule train_fold_f_error)
next
  assume a: "trl \<noteq> [] \<and> vll \<noteq> [] \<and> 1 \<le> MAX_EPOCHS cfg \<and>
    (\<forall>s. \<forall>batch \<in> set trl.
       labels_in_range (fn_train_forward net s batch) (map snd batch)) \<and>
    (\<forall>m. \<forall>batch \<in> set vll.
       labels_in_range (map (\<lambda>(x, y). fn_forward net m x) batch) (map snd batch))"
  let ?es0 = "EarlyStopping_init (EARLY_STOPPING_PATIENCE cfg) (1 / 1000) :: 'm EarlyStopping"
  let ?n = "nat (MAX_EPOCHS cfg)"
  from a have h1: "trl \<noteq> []" and h2: "vll \<noteq> []" and h3: "0 < ?n"
    and h4: "\<forall>s. \<forall>batch \<in> set trl.
               labels_in_range (fn_train_forward net s batch) (map snd batch)"
    and h5: "\<forall>m. \<forall>batch \<in> set vll.
               labels_in_range (map (\<lambda>(x, y). fn_forward net m x) batch) (map snd batch)"
    by simp_all
  from train_fold_loop_f_total [OF h1 h2 h4 h5, of cfg "LABEL_SMOOTHING cfg" ?n
      "fn_new_model net fold_ix" history_init 0 ?es0]
  obtain s' h' bva' es' xs where
    lp: "train_fold_loop_f net cfg (CrossEntropyLoss (LABEL_SMOOTHING cfg)) trl vll ?n
           (fn_new_model net fold_ix) history_init 0 ?es0 = Inr (s', h', bva', es')"
    and va: "val_acc h' = map fst xs"
    and l1: "length (train_loss h') = length xs" and l2: "length (val_loss h') = length xs"
    and run: "early_stopping_run ?es0 xs = (length xs, es')"
    and fin: "length xs = ?n \<or> early_stop es'"
    by (auto simp: history_init_def)
  have ne: "xs \<noteq> []"
  proof
    assume "xs = []"
    with run fin h3 show False by (auto simp: EarlyStopping_init_def)
  qed
  from es_inv_run [OF es_inv_init run] ne obtain model where
    bm: "best_model_state es' = Some model"
    by (auto simp: es_inv_def)
  have tf: "train_fold_f net fold_ix trl vll cfg = Inr (model, h', best_score es')"
    using lp bm by (simp add: train_fold_f_def get_loss_criterion_def load_state_dict_def)
  have z: "zip (val_acc h') (map snd xs) = xs" by (simp add: va zip_map_fst_snd)
  show "\<exists>model h b ms es.
       train_fold_f net fold_ix trl vll cfg = Inr (model, h, b) \<and>
       val_acc h \<noteq> [] \<and>
       length (train_loss h) = length (val_acc h) \<and>
       length (val_loss h) = length (val_acc h) \<and>
       length ms = length (val_acc h) \<and>
       early_stopping_run ?es0 (zip (val_acc h) ms) = (length (val_acc h), es) \<and>
       best_model_state es = Some model \<and> best_score es = b \<and>
       (length (val_acc h) = nat (MAX_EPOCHS cfg) \<or> early_stop es)"
    using tf ne l1 l2 run bm fin
    by (intro exI [of _ model] exI [of _ h'] exI [of _ "best_score es'"]
        exI [of _ "map snd xs"] exI [of _ es']) (simp add: z, simp add: va)
qed

lemma log_softmax_nans: "log_softmax_f nans = nans"
  by (simp add: log_softmax_f_def row_ok_def nans_def)

lemma softmax_nans: "softmax_f nans = nans"
  by (simp add: softmax_f_def row_ok_def nans_def)

lemma torch_max_nans: "torch_max_f nans = (NaN, 0)"
  by (simp add: nans_def)

lemma argmax_nans: "argmax_f nans = 0"
  by (simp add: argmax_f_def torch_max_nans)

lemma argmax_f_zeros: "argmax_f (map Finite zeros) = 0"
  by (simp add: argmax_f_def zeros_def)

lemma length_rows: "length nans = 6" "length zeros = 6"
  by (simp_all add: nans_def zeros_def)

lemma example_loss_nans: "y < 6 \<Longrightarrow> example_loss (1 / 10) nans y = NaN"
  by (simp add: example_loss_def log_softmax_nans Let_def)
    (simp add: nans_def nth_Cons split: nat.splits)

lemma example_loss_zeros: "example_loss (1 / 10) (map Finite zeros) 0 = Finite (ln 6)"
  by (simp add: example_loss_def log_softmax_f_def row_ok_def zeros_def pf_sum_def Let_def)

lemma c7_sel:
  "fn_new_model c7_net k = 0" "fn_state_dict c7_net s = s"
  "fn_optimizer_step c7_net s batch l = Suc s"
  "fn_train_forward c7_net 0 batch = map (\<lambda>b. map Finite zeros) batch"
  "fn_train_forward c7_net (Suc s) batch = map (\<lambda>b. nans) batch"
  "fn_forward c7_net (Suc m) x = nans"
  by (simp_all add: c7_net_def)

lemma c7_crit:
  "get_loss_criterion (toy_cfg a b) [map Finite zeros] [0] = Inr (Finite (ln 6))"
  "get_loss_criterion (toy_cfg a b) [nans] [0] = Inr NaN"
  "get_loss_criterion (toy_cfg a b) [nans, nans] [0, Suc 0] = Inr NaN"
  by (simp_all add: get_loss_criterion_def CrossEntropyLoss_def labels_in_range_def
      length_rows example_loss_nans example_loss_zeros pf_sum_def toy_cfg_def
      Config_default_def)

lemma c7_train_epoch:
  "train_epoch_f c7_net (get_loss_criterion (toy_cfg a b)) 0 [[(''t'', 0)]]
     = Inr (Finite (ln 6), 1, Suc 0)"
  "train_epoch_f c7_net (get_loss_criterion (toy_cfg a b)) (Suc s) [[(''t'', 0)]]
     = Inr (NaN, 1, Suc (Suc s))"
  by (simp_all add: train_epoch_f_def c7_sel c7_crit argmax_nans argmax_f_zeros
      accuracy_score_def n_correct_def Let_def)

lemma c7_evaluate:
  "evaluate_f c7_net (get_loss_criterion (toy_cfg a b)) (Suc m) [[(''a'', 0), (''b'', Suc 0)]]
     (toy_cfg a b)
   = Inr (NaN, 1 / 2, 1 / 2, [0, 0], [0, 1], [NaN, NaN])"
  by (simp add: evaluate_f_def c7_sel c7_crit softmax_nans torch_max_nans
      accuracy_score_def n_correct_def Let_def)

text \<open>
  The diverging network with at most four epochs and patience 2: the losses are NaN from
  the first validation on, three epochs are run, and the loop ends because the validation
  accuracy has not improved twice.
\<close>

theorem nonfinite_loss_not_fatal_witness:
  "train_fold_f c7_net 0 [[(''t'', 0)]] [[(''a'', 0), (''b'', 1)]] (toy_cfg 4 2)
   = Inr (1, \<lparr>train_loss = [Finite (ln 6), NaN, NaN], train_acc = [1, 1, 1],
              val_loss = [NaN, NaN, NaN], val_acc = [1 / 2, 1 / 2, 1 / 2],
              val_acc_adjusted = [1 / 2, 1 / 2, 1 / 2]\<rparr>, Some (1 / 2)) \<and>
   1 \<le> MAX_EPOCHS (toy_cfg 4 2) \<and>
   list_all (\<lambda>batch. labels_in_range (fn_train_forward c7_net 1 batch) (map snd batch))
     [[(''t'', 0)]] \<and>
   list_all (\<lambda>batch. labels_in_range (map (\<lambda>(x, y). fn_forward c7_net 1 x) batch)
                        (map snd batch)) [[(''a'', 0), (''b'', 1)]] \<and>
   (case early_stopping_run (EarlyStopping_init 2 (1 / 1000))
           [(1 / 2, 1 :: nat), (1 / 2, 2), (1 / 2, 3)] of
      (k, es) \<Rightarrow> k = 3 \<and> early_stop es \<and> best_model_state es = Some 1)"
  using nonfinite_loss_not_fatal [of c7_net 0 "[[(''t'', 0)]]" "[[(''a'', 0), (''b'', 1)]]"
      "toy_cfg 4 2" ZeroDivisionError]
  by (simp add: train_fold_f_def c7_sel c7_train_epoch c7_evaluate EarlyStopping_init_def
      EarlyStopping_call_def float_lt_sum_half history_init_def load_state_dict_def
      labels_in_range_def length_rows toy_cfg_sel eval_nat_numeral Let_def)

text \<open>
  Claim C7 as stated fails. The diverging network gives the validation loss NaN at the
  first epoch and the training loss NaN at the second; \<^verbatim>\<open>train_fold\<close> does not fail: it
  runs the three epochs that \<^verbatim>\<open>MAX_EPOCHS\<close> allows and returns the first snapshot, with
  the NaN losses in the history.
\<close>

theorem nan_loss_counterexample:
  "train_fold_f c7_net 0 [[(''t'', 0)]] [[(''a'', 0), (''b'', 1)]] (toy_cfg 3 5)
   = Inr (1, \<lparr>train_loss = [Finite (ln 6), NaN, NaN], train_acc = [1, 1, 1],
              val_loss = [NaN, NaN, NaN], val_acc = [1 / 2, 1 / 2, 1 / 2],
              val_acc_adjusted = [1 / 2, 1 / 2, 1 / 2]\<rparr>, Some (1 / 2)) \<and>
   train_epoch_f c7_net (get_loss_criterion (toy_cfg 3 5)) 1 [[(''t'', 0)]] = Inr (NaN, 1, 2) \<and>
   \<not> isfinite NaN \<and>
   train_fold_f c7_net 0 [[(''t'', 0)]] [[(''a'', 0), (''b'', 1)]] (toy_cfg 3 5)
     \<noteq> Inl DivergedTrainingError"
  by (simp add: train_fold_f_def c7_sel c7_train_epoch c7_evaluate EarlyStopping_init_def
      EarlyStopping_call_def float_lt_sum_half history_init_def load_state_dict_def
      toy_cfg_sel eval_nat_numeral Let_def)

section \<open>Selection of the best fold\<close>

lemma cv_inv_step:
  assumes inv: "cv_inv k (frs, hs, bf, bfa, bms)"
  shows "cv_inv (Suc k)
           (if a > bfa
            then (frs @ [\<lparr>fold_num = k + 1, best_val_accuracy = a, epochs_trained = n\<rparr>],
                  hs @ [h], int k, a, Some m)
            else (frs @ [\<lparr>fold_num = k + 1, best_val_accuracy = a, epochs_trained = n\<rparr>],
                  hs @ [h], bf, bfa, bms))"
proof (cases "a > bfa")
  case True
  have "0 \<le> bfa" using inv by (auto simp: cv_inv_def split: if_splits)
  moreover have "list_all (\<lambda>r. best_val_accuracy r < a) frs"
    using inv True by (auto simp: cv_inv_def list_all_iff)
  ultimately show ?thesis using inv True
    by (auto simp: cv_inv_def list_all_iff nth_append)
next
  case False
  with inv show ?thesis
    by (auto simp: cv_inv_def list_all_iff nth_append split: if_splits)
qed

lemma cv_models_step:
  assumes inv: "cv_inv k (frs, hs, bf, bfa, bms)" and len: "length pre = k"
    and mod: "cv_models ext cfg txts lbls pre (frs, hs, bf, bfa, bms)"
    and out: "fold_outcome ext cfg txts lbls split k = Inr (m, h, Some a)"
  shows "cv_models ext cfg txts lbls (pre @ [split])
           (if a > bfa
            then (frs @ [\<lparr>fold_num = k + 1, best_val_accuracy = a, epochs_trained = n\<rparr>],
                  hs @ [h], int k, a, Some m)
            else (frs @ [\<lparr>fold_num = k + 1, best_val_accuracy = a, epochs_trained = n\<rparr>],
                  hs @ [h], bf, bfa, bms))"
proof -
  have lens: "length frs = k" "length hs = k" using inv by (simp_all add: cv_inv_def)
  have bfk: "bf \<noteq> - 1 \<Longrightarrow> nat bf < k" using inv by (auto simp: cv_inv_def split: if_splits)
  show ?thesis
    using mod out len lens bfk
    by (auto simp: cv_models_def nth_append less_Suc_eq)
qed

lemma cv_loop_inv:
  assumes "cv_loop ext cfg txts lbls rest k st = Inr st'"
    and "length pre = k" and "cv_inv k st" and "cv_models ext cfg txts lbls pre st"
  shows "cv_inv (k + length rest) st' \<and> cv_models ext cfg txts lbls (pre @ rest) st'"
  using assms
proof (induction rest arbitrary: k st pre)
  case Nil
  then show ?case by simp
next
  case (Cons split rest)
  obtain frs hs bf bfa bms where st: "st = (frs, hs, bf, bfa, bms)" by (cases st) auto
  from Cons.prems(1) st obtain trl vll where
    fl: "fold_loaders ext cfg txts lbls split = Inr (trl, vll)"
    by (auto split: sum.splits)
  from Cons.prems(1) st fl obtain m h a where
    tf: "train_fold ext k trl vll cfg = Inr (m, h, Some a)"
    by (auto split: sum.splits option.splits)
  have out: "fold_outcome ext cfg txts lbls split k = Inr (m, h, Some a)"
    by (simp add: fold_outcome_def fl tf)
  let ?st1 = "if a > bfa
            then (frs @ [\<lparr>fold_num = k + 1, best_val_accuracy = a,
                           epochs_trained = length (train_loss h)\<rparr>],
                  hs @ [h], int k, a, Some m)
            else (frs @ [\<lparr>fold_num = k + 1, best_val_accuracy = a,
                           epochs_trained = length (train_loss h)\<rparr>],
                  hs @ [h], bf, bfa, bms)"
  have inv1: "cv_inv (Suc k) ?st1"
    using Cons.prems(3) unfolding st by (rule cv_inv_step)
  have mod1: "cv_models ext cfg txts lbls (pre @ [split]) ?st1"
    using Cons.prems(3,2,4) out unfolding st by (rule cv_models_step)
  have run: "cv_loop ext cfg txts lbls rest (Suc k) ?st1 = Inr st'"
    using Cons.prems(1) st fl tf by (simp add: Let_def split: if_splits)
  have "length (pre @ [split]) = Suc k" using Cons.prems(2) by simp
  from Cons.IH [OF run this inv1 mod1] show ?case by simp
qed

lemma run_cross_validation_inv:
  fixes ext :: "('s, 'm, 'x) extern"
  assumes "run_cross_validation ext cv_df cfg = Inr (frs, hs, bf, bms)"
  shows "\<exists>splits bfa.
           skf_split ext (N_FOLDS cfg) (map fst cv_df) (map snd cv_df) = Inr splits \<and>
           cv_inv (length splits) (frs, hs, bf, bfa, bms) \<and>
           cv_models ext cfg (map fst cv_df) (map snd cv_df) splits (frs, hs, bf, bfa, bms)"
proof -
  from assms obtain splits where
    sp: "skf_split ext (N_FOLDS cfg) (map fst cv_df) (map snd cv_df) = Inr splits"
    by (auto simp: run_cross_validation_def Let_def split: sum.splits)
  from assms sp obtain bfa where
    lp: "cv_loop ext cfg (map fst cv_df) (map snd cv_df) splits 0 ([], [], - 1, 0, None)
           = Inr (frs, hs, bf, bfa, bms)"
    by (auto simp: run_cross_validation_def Let_def split: sum.splits)
  have i0: "cv_inv 0 ([], [], - 1, 0, None :: 'm option)" by (simp add: cv_inv_def)
  have m0: "cv_models ext cfg (map fst cv_df) (map snd cv_df) [] ([], [], - 1, 0, None)"
    by (simp add: cv_models_def)
  have l0: "length ([] :: (nat list \<times> nat list) list) = 0" by simp
  from cv_loop_inv [OF lp l0 i0 m0] sp show ?thesis by auto
qed

lemma fold_loaders_error: "fold_loaders ext cfg txts lbls split = Inl e \<Longrightarrow> e = IndexError"
  by (auto simp: fold_loaders_def take_idx_def split: prod.splits sum.splits if_splits)

lemma cv_loop_error:
  "cv_loop ext cfg txts lbls rest k st = Inl e \<Longrightarrow>
     e = IndexError \<or> e = ZeroDivisionError \<or> e = TypeError"
proof (induction rest arbitrary: k st)
  case Nil
  then show ?case by simp
next
  case (Cons split rest)
  then show ?case
    by (auto simp: Let_def dest: fold_loaders_error train_fold_error
        split: prod.splits sum.splits option.splits if_splits)
qed

lemmas toy_cv_simps =
  run_cross_validation_def fold_loaders_def take_idx_def IntentDataset_def DataLoader_def

text \<open>
  The selection on the runs in which some fold has a best validation accuracy above 0:
  \<^verbatim>\<open>best_fold\<close> is the index of a fold whose accuracy is at least the accuracy of every fold
  and strictly above the accuracy of every earlier fold (the first fold with the greatest
  accuracy wins), and the returned state is the model that \<^verbatim>\<open>train_fold\<close> returned for
  that fold.
\<close>

lemma first_greatest_fold_selected:
  fixes ext :: "('s, 'm, 'x) extern"
  assumes run: "run_cross_validation ext cv_df cfg = Inr (frs, hs, bf, bms)"
    and pos: "list_ex (\<lambda>r. 0 < best_val_accuracy r) frs"
  shows "0 \<le> bf \<and> nat bf < length frs \<and> fold_num (frs ! nat bf) = nat bf + 1 \<and>
         (\<forall>r \<in> set frs. best_val_accuracy r \<le> best_val_accuracy (frs ! nat bf)) \<and>
         (\<forall>j < nat bf. best_val_accuracy (frs ! j) < best_val_accuracy (frs ! nat bf)) \<and>
         (\<exists>splits m.
            skf_split ext (N_FOLDS cfg) (map fst cv_df) (map snd cv_df) = Inr splits \<and>
            length splits = length frs \<and> bms = Some m \<and>
            fold_outcome ext cfg (map fst cv_df) (map snd cv_df) (splits ! nat bf) (nat bf)
              = Inr (m, hs ! nat bf, Some (best_val_accuracy (frs ! nat bf))))"
proof -
  from run_cross_validation_inv [OF run] obtain splits bfa where
    sp: "skf_split ext (N_FOLDS cfg) (map fst cv_df) (map snd cv_df) = Inr splits"
    and inv: "cv_inv (length splits) (frs, hs, bf, bfa, bms)"
    and mod: "cv_models ext cfg (map fst cv_df) (map snd cv_df) splits (frs, hs, bf, bfa, bms)"
    by blast
  from pos obtain r where r: "r \<in> set frs" "0 < best_val_accuracy r"
    by (auto simp: list_ex_iff)
  from inv have bound: "\<forall>r \<in> set frs. best_val_accuracy r \<le> bfa" and len: "length frs = length splits"
    by (auto simp: cv_inv_def list_all_iff)
  with r have "0 < bfa" by fastforce
  with inv have ne: "bf \<noteq> - 1" by (auto simp: cv_inv_def)
  with inv have w: "0 \<le> bf" "nat bf < length splits"
    "best_val_accuracy (frs ! nat bf) = bfa" "fold_num (frs ! nat bf) = nat bf + 1"
    "list_all (\<lambda>r. best_val_accuracy r < bfa) (take (nat bf) frs)"
    by (auto simp: cv_inv_def)
  have earlier: "\<forall>j < nat bf. best_val_accuracy (frs ! j) < bfa"
  proof (intro allI impI)
    fix j assume j: "j < nat bf"
    with w(2) len have "frs ! j \<in> set (take (nat bf) frs)"
      by (metis in_set_conv_nth length_take min.absorb2 less_imp_le_nat nth_take)
    with w(5) show "best_val_accuracy (frs ! j) < bfa" by (simp add: list_all_iff)
  qed
  from mod ne obtain m where "bms = Some m"
    "fold_outcome ext cfg (map fst cv_df) (map snd cv_df) (splits ! nat bf) (nat bf)
       = Inr (m, hs ! nat bf, Some bfa)"
    by (auto simp: cv_models_def)
  with sp w bound earlier len show ?thesis by auto
qed

text \<open>Three folds with accuracies 1/2, 1 and 1: the second fold (index 1) wins.\<close>

lemma first_greatest_fold_selected_example:
  "run_cross_validation
      (toy_ext (\<lambda>m x. zeros) (Finite 1) [([2, 3], [0, 1]), ([0, 1, 3], [2]), ([0, 1, 2], [3])])
      [(''a'', 0), (''b'', 1), (''c'', 0), (''d'', 0)] (toy_cfg 1 3)
   = Inr ([\<lparr>fold_num = 1, best_val_accuracy = 1 / 2, epochs_trained = 1\<rparr>,
           \<lparr>fold_num = 2, best_val_accuracy = 1, epochs_trained = 1\<rparr>,
           \<lparr>fold_num = 3, best_val_accuracy = 1, epochs_trained = 1\<rparr>],
          [h_one 1 (1 / 2), h_one (2 / 3) 1, h_one (2 / 3) 1], 1, Some 11) \<and>
   list_ex (\<lambda>r. 0 < best_val_accuracy r)
     [\<lparr>fold_num = 1, best_val_accuracy = 1 / 2, epochs_trained = 1\<rparr>,
      \<lparr>fold_num = 2, best_val_accuracy = 1, epochs_trained = 1\<rparr>,
      \<lparr>fold_num = 3, best_val_accuracy = 1, epochs_trained = 1\<rparr>]"
  using first_greatest_fold_selected
    [of "toy_ext (\<lambda>m x. zeros) (Finite 1) [([2, 3], [0, 1]), ([0, 1, 3], [2]), ([0, 1, 2], [3])]"
      "[(''a'', 0), (''b'', 1), (''c'', 0), (''d'', 0)]" "toy_cfg 1 3"
      "[\<lparr>fold_num = 1, best_val_accuracy = 1 / 2, epochs_trained = 1\<rparr>,
        \<lparr>fold_num = 2, best_val_accuracy = 1, epochs_trained = 1\<rparr>,
        \<lparr>fold_num = 3, best_val_accuracy = 1, epochs_trained = 1\<rparr>]"
      "[h_one 1 (1 / 2), h_one (2 / 3) 1, h_one (2 / 3) 1]" 1 "Some 11"]
  by (simp add: toy_cv_simps toy_eval_simps h_one_def eval_nat_numeral LABEL2ID_unclear_eq)

text \<open>
  Claim C4: the orchestrator selects the fold with the greatest best validation accuracy,
  the first such fold on a tie, for every list of fold results. The code does not do so
  when every fold's accuracy is 0. On a corpus of three rows with label 1, two folds and a
  classifier that answers label 0, both folds have accuracy 0: the claim's winner is the
  first fold, but the comparison \<^verbatim>\<open>best_acc > best_fold_acc\<close> with the initial
  \<^verbatim>\<open>best_fold_acc = 0\<close> is strict, so \<^verbatim>\<open>best_fold\<close> stays \<open>-1\<close>, no model state is kept, and
  \<^verbatim>\<open>best_model.load_state_dict(best_model_state)\<close> in \<^verbatim>\<open>main\<close> raises \<^verbatim>\<open>TypeError\<close>.
\<close>

theorem best_fold_selection_all_zero:
  "run_cross_validation (toy_ext (\<lambda>m x. zeros) (Finite 1) [([1], [0, 2]), ([0, 2], [1])])
      [(''a'', 1), (''b'', 1), (''c'', 1)] (toy_cfg 1 3)
   = Inr ([\<lparr>fold_num = 1, best_val_accuracy = 0, epochs_trained = 1\<rparr>,
           \<lparr>fold_num = 2, best_val_accuracy = 0, epochs_trained = 1\<rparr>],
          [h_one 0 0, h_one 0 0], - 1, None) \<and>
   main_best_model (toy_ext (\<lambda>m x. zeros) (Finite 1) [([1], [0, 2]), ([0, 2], [1])])
      [(''a'', 1), (''b'', 1), (''c'', 1)] (toy_cfg 1 3) = Inl TypeError"
  by (simp add: main_best_model_def toy_cv_simps toy_eval_simps h_one_def eval_nat_numeral
      LABEL2ID_unclear_eq)

text \<open>
  Claim C9. If no fold has a best validation accuracy above 0, \<^verbatim>\<open>run_cross_validation\<close>
  returns \<^verbatim>\<open>best_fold = -1\<close> and no model state, and the load of the best model in \<^verbatim>\<open>main\<close>
  fails. If some fold has an accuracy above 0, a state is returned and the load succeeds.
  So \<^verbatim>\<open>main\<close> obtains a best model exactly when some fold's accuracy exceeds 0.
\<close>

theorem no_winner_without_positive_accuracy:
  fixes ext :: "('s, 'm, 'x) extern"
  assumes run: "run_cross_validation ext cv_df cfg = Inr (frs, hs, bf, bms)"
  shows "(list_all (\<lambda>r. best_val_accuracy r \<le> 0) frs \<longrightarrow>
            bf = - 1 \<and> bms = None \<and> main_best_model ext cv_df cfg = Inl TypeError) \<and>
         (list_ex (\<lambda>r. 0 < best_val_accuracy r) frs \<longrightarrow>
            bf \<noteq> - 1 \<and> (\<exists>m. bms = Some m \<and> main_best_model ext cv_df cfg = Inr (m, frs, hs, bf))) \<and>
         ((\<exists>m. main_best_model ext cv_df cfg = Inr (m, frs, hs, bf))
            \<longleftrightarrow> list_ex (\<lambda>r. 0 < best_val_accuracy r) frs)"
proof -
  from run_cross_validation_inv [OF run] obtain splits :: "(nat list \<times> nat list) list"
    and bfa where inv: "cv_inv (length splits) (frs, hs, bf, bfa, bms)"
    by blast
  have main: "main_best_model ext cv_df cfg =
                (case bms of None \<Rightarrow> Inl TypeError | Some m \<Rightarrow> Inr (m, frs, hs, bf))"
    by (simp add: main_best_model_def run load_state_dict_def split: option.splits)
  have bound: "\<forall>r \<in> set frs. best_val_accuracy r \<le> bfa"
    using inv by (auto simp: cv_inv_def list_all_iff)
  have a: "bf = - 1 \<and> bms = None" if "list_all (\<lambda>r. best_val_accuracy r \<le> 0) frs"
  proof (rule ccontr)
    assume "\<not> (bf = - 1 \<and> bms = None)"
    with inv have "bf \<noteq> - 1" by (auto simp: cv_inv_def split: if_splits)
    with inv have w: "nat bf < length frs" "0 < best_val_accuracy (frs ! nat bf)"
      by (auto simp: cv_inv_def)
    from w(1) have "frs ! nat bf \<in> set frs" by (rule nth_mem)
    with that have "best_val_accuracy (frs ! nat bf) \<le> 0"
      unfolding list_all_iff by blast
    with w(2) show False by simp
  qed
  have b: "bf \<noteq> - 1 \<and> (\<exists>m. bms = Some m)" if "list_ex (\<lambda>r. 0 < best_val_accuracy r) frs"
  proof -
    from that obtain r where "r \<in> set frs" "0 < best_val_accuracy r"
      by (auto simp: list_ex_iff)
    with bound have "0 < bfa" by fastforce
    with inv show ?thesis by (auto simp: cv_inv_def split: if_splits)
  qed
  have c: "list_ex (\<lambda>r. 0 < best_val_accuracy r) frs" if "bms \<noteq> None"
  proof -
    from that inv have w: "nat bf < length frs" "0 < best_val_accuracy (frs ! nat bf)"
      by (auto simp: cv_inv_def split: if_splits)
    from w(1) have "frs ! nat bf \<in> set frs" by (rule nth_mem)
    with w(2) show ?thesis unfolding list_ex_iff by blast
  qed
  show ?thesis
    using a b c by (auto simp: main split: option.splits)
qed

text \<open>
  Two folds with accuracy 0: no winner, and \<^verbatim>\<open>main\<close> fails with \<^verbatim>\<open>TypeError\<close>; with accuracies
  0 and 1 the second fold's model is loaded.
\<close>

theorem no_winner_without_positive_accuracy_witness:
  "run_cross_validation (toy_ext (\<lambda>m x. zeros) (Finite 1) [([1], [0]), ([0], [1])])
      [(''a'', 2), (''b'', 3)] (toy_cfg 1 3)
   = Inr ([\<lparr>fold_num = 1, best_val_accuracy = 0, epochs_trained = 1\<rparr>,
           \<lparr>fold_num = 2, best_val_accuracy = 0, epochs_trained = 1\<rparr>],
          [h_one 0 0, h_one 0 0], - 1, None) \<and>
   list_all (\<lambda>r. best_val_accuracy r \<le> 0)
     [\<lparr>fold_num = 1, best_val_accuracy = 0, epochs_trained = 1\<rparr>,
      \<lparr>fold_num = 2, best_val_accuracy = 0, epochs_trained = 1\<rparr>] \<and>
   main_best_model (toy_ext (\<lambda>m x. zeros) (Finite 1) [([1], [0]), ([0], [1])])
      [(''a'', 2), (''b'', 3)] (toy_cfg 1 3) = Inl TypeError \<and>
   main_best_model (toy_ext (\<lambda>m x. zeros) (Finite 1) [([1], [0]), ([0], [1])])
      [(''a'', 2), (''b'', 0)] (toy_cfg 1 3)
   = Inr (11, [\<lparr>fold_num = 1, best_val_accuracy = 0, epochs_trained = 1\<rparr>,
               \<lparr>fold_num = 2, best_val_accuracy = 1, epochs_trained = 1\<rparr>],
          [h_one 1 0, h_one 0 1], 1)"
  using no_winner_without_positive_accuracy
    [of "toy_ext (\<lambda>m x. zeros) (Finite 1) [([1], [0]), ([0], [1])]"
      "[(''a'', 2), (''b'', 3)]" "toy_cfg 1 3"
      "[\<lparr>fold_num = 1, best_val_accuracy = 0, epochs_trained = 1\<rparr>,
        \<lparr>fold_num = 2, best_val_accuracy = 0, epochs_trained = 1\<rparr>]"
      "[h_one 0 0, h_one 0 0]" "- 1" None]
  by (simp add: main_best_model_def toy_cv_simps toy_eval_simps h_one_def eval_nat_numeral
      LABEL2ID_unclear_eq)

section \<open>Labels with too few examples\<close>

text \<open>
  Claim C6, as amended. \<^verbatim>\<open>run_cross_validation\<close> counts no labels and never fails with
  \<open>InsufficientDataError\<close>. Before any training it fails only when the stratified splitter
  raises, with the splitter's \<^verbatim>\<open>ValueError\<close>; every other failure comes from a fold that the
  splitter has yielded (\<^verbatim>\<open>IndexError\<close>, \<^verbatim>\<open>ZeroDivisionError\<close> or \<^verbatim>\<open>TypeError\<close>). When the
  splitter yields folds, the first fold is trained, whatever the label counts are.
\<close>

theorem no_label_count_check:
  fixes ext :: "('s, 'm, 'x) extern"
  shows "run_cross_validation ext cv_df cfg \<noteq> Inl (InsufficientDataError l) \<and>
   (skf_split ext (N_FOLDS cfg) (map fst cv_df) (map snd cv_df) = Inl msg \<longrightarrow>
      run_cross_validation ext cv_df cfg = Inl (ValueError msg)) \<and>
   (run_cross_validation ext cv_df cfg = Inl e \<longrightarrow>
      (\<exists>msg'. skf_split ext (N_FOLDS cfg) (map fst cv_df) (map snd cv_df) = Inl msg' \<and>
              e = ValueError msg') \<or>
      (\<exists>splits. skf_split ext (N_FOLDS cfg) (map fst cv_df) (map snd cv_df) = Inr splits \<and>
         splits \<noteq> [] \<and> (e = IndexError \<or> e = ZeroDivisionError \<or> e = TypeError))) \<and>
   (skf_split ext (N_FOLDS cfg) (map fst cv_df) (map snd cv_df) = Inr (split # rest) \<longrightarrow>
    fold_outcome ext cfg (map fst cv_df) (map snd cv_df) split 0 = Inl e' \<longrightarrow>
      run_cross_validation ext cv_df cfg = Inl e')"
proof -
  let ?sp = "skf_split ext (N_FOLDS cfg) (map fst cv_df) (map snd cv_df)"
  let ?init = "([], [], - 1, 0, None) :: 'm cv_state"
  have kinds: "(\<exists>msg'. ?sp = Inl msg' \<and> e = ValueError msg') \<or>
      (\<exists>splits. ?sp = Inr splits \<and> splits \<noteq> [] \<and>
         (e = IndexError \<or> e = ZeroDivisionError \<or> e = TypeError))"
    if "run_cross_validation ext cv_df cfg = Inl e" for e
  proof (cases ?sp)
    case (Inl msg')
    with that show ?thesis by (simp add: run_cross_validation_def Let_def)
  next
    case (Inr splits)
    with that have lp: "cv_loop ext cfg (map fst cv_df) (map snd cv_df) splits 0 ?init = Inl e"
      by (auto simp: run_cross_validation_def Let_def split: sum.splits)
    then have "splits \<noteq> []" by auto
    with cv_loop_error [OF lp] Inr show ?thesis by simp
  qed
  have never: "run_cross_validation ext cv_df cfg \<noteq> Inl (InsufficientDataError l)"
    using kinds [of "InsufficientDataError l"] by auto
  have pass: "run_cross_validation ext cv_df cfg = Inl (ValueError msg)" if "?sp = Inl msg"
    using that by (simp add: run_cross_validation_def Let_def)
  have first: "run_cross_validation ext cv_df cfg = Inl e'"
    if "?sp = Inr (split # rest)"
      and "fold_outcome ext cfg (map fst cv_df) (map snd cv_df) split 0 = Inl e'"
    using that
    by (auto simp: run_cross_validation_def fold_outcome_def Let_def split: sum.splits)
  from never pass kinds first show ?thesis by blast
qed

text \<open>A splitter that raises: its error is the result, as a \<^verbatim>\<open>ValueError\<close>.\<close>

theorem no_label_count_check_witness:
  "skf_split
     ((toy_ext (\<lambda>m x. zeros) (Finite 1) [])
        \<lparr>skf_split := (\<lambda>k txts lbls. Inl ''n_splits cannot be greater than the number of members in each class'')\<rparr>)
     (N_FOLDS (toy_cfg 1 3)) (map fst [(''a'', 0 :: nat), (''b'', 1)]) (map snd [(''a'', 0 :: nat), (''b'', 1)])
   = Inl ''n_splits cannot be greater than the number of members in each class'' \<and>
   run_cross_validation
     ((toy_ext (\<lambda>m x. zeros) (Finite 1) [])
        \<lparr>skf_split := (\<lambda>k txts lbls. Inl ''n_splits cannot be greater than the number of members in each class'')\<rparr>)
     [(''a'', 0), (''b'', 1)] (toy_cfg 1 3)
   = Inl (ValueError ''n_splits cannot be greater than the number of members in each class'')"
  using no_label_count_check
    [of "(toy_ext (\<lambda>m x. zeros) (Finite 1) [])
        \<lparr>skf_split := (\<lambda>k txts lbls. Inl ''n_splits cannot be greater than the number of members in each class'')\<rparr>"
      "[(''a'', 0), (''b'', 1)]" "toy_cfg 1 3" 0
      "''n_splits cannot be greater than the number of members in each class''"
      "ValueError ''n_splits cannot be greater than the number of members in each class''"]
  by (simp add: toy_ext_def)

text \<open>
  Claim C6 as stated fails. With two folds and a corpus in which label 1 has one example
  (and labels 2 to 5 none), a splitter that yields folds lets both folds be trained:
  the result is not an error. (The splitter of scikit-learn yields folds here: it raises
  only when every label has fewer members than there are folds, and warns otherwise.)
\<close>

theorem no_label_count_check_counterexample:
  "run_cross_validation (toy_ext (\<lambda>m x. zeros) (Finite 1) [([1], [0, 2]), ([0, 2], [1])])
      [(''a'', 0), (''b'', 0), (''c'', 1)] (toy_cfg 1 3)
   = Inr ([\<lparr>fold_num = 1, best_val_accuracy = 1 / 2, epochs_trained = 1\<rparr>,
           \<lparr>fold_num = 2, best_val_accuracy = 1, epochs_trained = 1\<rparr>],
          [h_one 1 (1 / 2), h_one (1 / 2) 1], 1, Some 11) \<and>
   length (filter (\<lambda>(text, label). label = 1) [(''a'', 0 :: nat), (''b'', 0), (''c'', 1)]) = 1 \<and>
   N_FOLDS (toy_cfg 1 3) = 2"
  by (simp add: toy_cv_simps toy_eval_simps h_one_def eval_nat_numeral LABEL2ID_unclear_eq)

section \<open>Pooled accuracy of the combined evaluation\<close>

lemma n_correct_append:
  "length a = length b \<Longrightarrow> n_correct (a @ c) (b @ d) = n_correct a b + n_correct c d"
  by (simp add: n_correct_def)

lemma lookup_all_length: "lookup_all d ks = Inr vs \<Longrightarrow> length vs = length ks"
  by (induction ks arbitrary: vs) (auto split: option.splits sum.splits)

lemma evaluate_dataset_Inr:
  assumes "evaluate_dataset ext m df cfg = Inr res"
  shows "length (res_labels res) = length df"
    and "length (res_predictions res) = length df"
    and "0 < length df"
    and "raw_accuracy res = accuracy_score (res_labels res) (res_predictions res)"
    and "lookup_all LABEL2ID (map snd df) = Inr (res_labels res)"
    and "res_predictions res = fst (predict ext m (map fst df))"
  using assms
  by (auto simp: evaluate_dataset_def Let_def predict_def dest: lookup_all_length
      split: sum.splits prod.splits if_splits)

lemma evaluate_each_Inr:
  assumes "evaluate_each ext m datasets cfg = Inr results"
  shows "list_all2 (\<lambda>(name, df) (name', res). name' = name \<and> evaluate_dataset ext m df cfg = Inr res)
           datasets results \<and>
         list_all (\<lambda>(name, res). pooled_ok res) results"
  using assms
proof (induction datasets arbitrary: results)
  case Nil
  then show ?case by simp
next
  case (Cons d datasets)
  obtain name df where d: "d = (name, df)" by (cases d)
  from Cons.prems d obtain res rest where
    ev: "evaluate_dataset ext m df cfg = Inr res"
    and rest: "evaluate_each ext m datasets cfg = Inr rest"
    and results: "results = (name, res) # rest"
    by (auto split: sum.splits)
  have "pooled_ok res"
    using evaluate_dataset_Inr(1,2,3,4) [OF ev] by (simp add: pooled_ok_def accuracy_score_def)
  with Cons.IH [OF rest] ev d results show ?case by simp
qed

lemma pooled_counts:
  assumes "list_all (\<lambda>(name, res). pooled_ok res) results"
  shows "n_correct (concat (map (\<lambda>(name, res). res_labels res) results))
           (concat (map (\<lambda>(name, res). res_predictions res) results))
         = sum_list (map (\<lambda>(name, res). n_correct (res_labels res) (res_predictions res)) results)"
    and "length (concat (map (\<lambda>(name, res). res_labels res) results))
         = sum_list (map (\<lambda>(name, res). length (res_labels res)) results)"
  using assms
  by (induction results) (auto simp: n_correct_append pooled_ok_def n_correct_def)

lemma weighted_sum:
  assumes "list_all (\<lambda>(name, res). pooled_ok res) results"
  shows "(\<Sum>(name, res)\<leftarrow>results. raw_accuracy res * real (length (res_labels res)))
         = real (sum_list (map (\<lambda>(name, res). n_correct (res_labels res) (res_predictions res))
                   results))"
  using assms
  by (induction results) (auto simp: pooled_ok_def)

lemmas toy_combined_simps =
  evaluate_combined_def evaluate_dataset_def predict_def classification_report_ok_def
  LABEL2ID_def ID2LABEL_def c5_ext_def c5_A_def c5_B_def toy_ext_def Config_default_def
  tm_toward tm_zeros toward_conf_lt' accuracy_score_def n_correct_def adjusted_preds_def
  LABEL2ID_unclear_eq Let_def

text \<open>
  Claim C5. The combined raw accuracy of \<^verbatim>\<open>evaluate_combined\<close> is computed on the
  concatenation of the labels and predictions of all data sets: it is the total number
  of correct predictions over the total number of examples, that is the mean of the
  per-dataset accuracies weighted by the sizes of the data sets. For a data set of 10
  examples with 8 correct and one of 5 examples with 5 correct it is 13/15, while the
  plain mean of the two accuracies is 9/10.
\<close>

theorem pooled_accuracy:
  assumes "evaluate_combined ext m datasets cfg = Inr r"
  shows "\<exists>results.
           evaluate_each ext m datasets cfg = Inr results \<and>
           list_all2 (\<lambda>(name, df) (name', res).
                        name' = name \<and> evaluate_dataset ext m df cfg = Inr res)
             datasets results \<and>
           list_all (\<lambda>(name, res). pooled_ok res) results \<and>
           total_samples r = sum_list (map (\<lambda>(name, res). length (res_labels res)) results) \<and>
           0 < total_samples r \<and>
           combined_raw_accuracy r
             = real (sum_list (map (\<lambda>(name, res). n_correct (res_labels res) (res_predictions res))
                       results))
               / real (total_samples r) \<and>
           combined_raw_accuracy r * real (total_samples r)
             = (\<Sum>(name, res)\<leftarrow>results. raw_accuracy res * real (length (res_labels res))) \<and>
           per_dataset r = map (\<lambda>(name, res). (name, raw_accuracy res, adjusted_accuracy res)) results \<and>
           (\<forall>a ra b rb.
              results = [(a, ra), (b, rb)] \<longrightarrow>
              length (res_labels ra) = 10 \<longrightarrow> n_correct (res_labels ra) (res_predictions ra) = 8 \<longrightarrow>
              length (res_labels rb) = 5 \<longrightarrow> n_correct (res_labels rb) (res_predictions rb) = 5 \<longrightarrow>
                combined_raw_accuracy r = 13 / 15 \<and>
                (raw_accuracy ra + raw_accuracy rb) / 2 = 9 / 10)"
proof -
  from assms obtain results where
    each: "evaluate_each ext m datasets cfg = Inr results"
    by (auto simp: evaluate_combined_def split: sum.splits)
  note ok = evaluate_each_Inr [OF each]
  let ?ls = "concat (map (\<lambda>(name, res). res_labels res) results)"
  let ?ps = "concat (map (\<lambda>(name, res). res_predictions res) results)"
  from assms each have r:
    "combined_raw_accuracy r = accuracy_score ?ls ?ps"
    "total_samples r = length ?ls" "0 < length ?ls"
    "per_dataset r = map (\<lambda>(name, res). (name, raw_accuracy res, adjusted_accuracy res)) results"
    by (auto simp: evaluate_combined_def Let_def split: sum.splits if_splits)
  note cnt = pooled_counts [OF conjunct2 [OF ok]]
  have raw: "combined_raw_accuracy r
             = real (sum_list (map (\<lambda>(name, res). n_correct (res_labels res) (res_predictions res))
                       results))
               / real (total_samples r)"
    using r(1,2) cnt by (simp add: accuracy_score_def)
  have w: "combined_raw_accuracy r * real (total_samples r)
             = (\<Sum>(name, res)\<leftarrow>results. raw_accuracy res * real (length (res_labels res)))"
    using raw r(2,3) weighted_sum [OF conjunct2 [OF ok]] by simp
  have ex: "combined_raw_accuracy r = 13 / 15 \<and> (raw_accuracy ra + raw_accuracy rb) / 2 = 9 / 10"
    if "results = [(a, ra), (b, rb)]" "length (res_labels ra) = 10"
      "n_correct (res_labels ra) (res_predictions ra) = 8" "length (res_labels rb) = 5"
      "n_correct (res_labels rb) (res_predictions rb) = 5" for a ra b rb
    using that raw r(2) cnt(2) ok by (simp add: pooled_ok_def)
  have total: "total_samples r = sum_list (map (\<lambda>(name, res). length (res_labels res)) results)"
    using r(2) cnt(2) by simp
  have pos: "0 < total_samples r" using r(2,3) by simp
  show ?thesis
  proof (intro exI [of _ results] conjI allI impI)
    fix a ra b rb
    assume "results = [(a, ra), (b, rb)]" "length (res_labels ra) = 10"
      "n_correct (res_labels ra) (res_predictions ra) = 8" "length (res_labels rb) = 5"
      "n_correct (res_labels rb) (res_predictions rb) = 5"
    from ex [OF this] show "combined_raw_accuracy r = 13 / 15"
      and "(raw_accuracy ra + raw_accuracy rb) / 2 = 9 / 10" by simp_all
  qed (use each ok total pos raw w r(4) in simp_all)
qed

text \<open>The two example data sets: pooled accuracy 13/15, per-dataset accuracies 4/5 and 1.\<close>

theorem pooled_accuracy_witness:
  "evaluate_combined c5_ext 0 [(''intent_test'', c5_A), (''user_test'', c5_B)] Config_default
   = Inr \<lparr>combined_raw_accuracy = 13 / 15, combined_adjusted_accuracy = 1 / 15,
           total_samples = 15, total_errors = 2,
           per_dataset = [(''intent_test'', 4 / 5, 1 / 10), (''user_test'', 1, 0)]\<rparr> \<and>
   length c5_A = 10 \<and> length c5_B = 5 \<and>
   ((4 / 5 + 1) / 2 :: real) = 9 / 10 \<and> (13 / 15 :: real) \<noteq> 9 / 10"
  using pooled_accuracy
    [of c5_ext 0 "[(''intent_test'', c5_A), (''user_test'', c5_B)]" Config_default
      "\<lparr>combined_raw_accuracy = 13 / 15, combined_adjusted_accuracy = 1 / 15,
        total_samples = 15, total_errors = 2,
        per_dataset = [(''intent_test'', 4 / 5, 1 / 10), (''user_test'', 1, 0)]\<rparr>"]
  by (simp add: toy_combined_simps)

end
